theory Spec2Isabelle
  imports Complex_Main "HOL-Library.AList" "HOL-Library.Multiset"
begin

section \<open>Python strings\<close>

text \<open>
  A Python \<open>str\<close> is a sequence of code points. It is modelled as a \<open>string\<close> whose
  characters stand for the code points 0 to 255; the character classes below are the ones
  CPython uses on that range. The value \<open>None\<close> of an optional string is \<open>None\<close>.
\<close>

definition py_isspace :: "char \<Rightarrow> bool" where
  \<comment> \<open>\<open>str.isspace\<close>, the class stripped by \<open>str.strip()\<close> and matched by \<open>\s\<close>\<close>
  "py_isspace c =
     (let n = (of_char c :: nat)
      in (9 \<le> n \<and> n \<le> 13) \<or> (28 \<le> n \<and> n \<le> 32) \<or> n = 133 \<or> n = 160)"

definition is_crlftab :: "char \<Rightarrow> bool" where
  \<comment> \<open>the class \<open>[\r\n\t]\<close>\<close>
  "is_crlftab c = (c = CHR 0x0D \<or> c = CHR 0x0A \<or> c = CHR 0x09)"

definition is_decimal :: "char \<Rightarrow> bool" where
  \<comment> \<open>the class \<open>\d\<close>\<close>
  "is_decimal c = (let n = (of_char c :: nat) in 48 \<le> n \<and> n \<le> 57)"

definition strip_with :: "(char \<Rightarrow> bool) \<Rightarrow> string \<Rightarrow> string" where
  "strip_with p s = rev (dropWhile p (rev (dropWhile p s)))"

definition py_strip :: "string \<Rightarrow> string" where
  \<comment> \<open>\<open>s.strip()\<close>\<close>
  "py_strip s = strip_with py_isspace s"

definition py_strip_chars :: "string \<Rightarrow> string \<Rightarrow> string" where
  \<comment> \<open>\<open>s.strip(chars)\<close>: every leading and trailing character that occurs in \<open>chars\<close>\<close>
  "py_strip_chars chars s = strip_with (\<lambda>c. c \<in> set chars) s"

fun py_split :: "char \<Rightarrow> string \<Rightarrow> string list" where
  \<comment> \<open>\<open>s.split(sep)\<close> for a one-character separator\<close>
  "py_split sep [] = [[]]"
| "py_split sep (c # cs) =
     (if c = sep then [] # py_split sep cs
      else (case py_split sep cs of
              w # ws \<Rightarrow> (c # w) # ws
            | [] \<Rightarrow> [[c]]))"

function re_sub_runs :: "(char \<Rightarrow> bool) \<Rightarrow> string \<Rightarrow> string" where
  \<comment> \<open>\<open>re.sub('[class]+', ' ', s)\<close>: every maximal run of the class becomes one space\<close>
  "re_sub_runs p [] = []"
| "re_sub_runs p (c # cs) =
     (if p c then CHR '' '' # re_sub_runs p (dropWhile p cs)
      else c # re_sub_runs p cs)"
  by pat_completeness auto
termination
  by (relation "measure (\<lambda>(p, s). length s)")
     (auto simp: length_dropWhile_le less_Suc_eq_le)

definition py_slice_to :: "string \<Rightarrow> int \<Rightarrow> string" where
  \<comment> \<open>\<open>s[:k]\<close>; a negative \<open>k\<close> counts from the end\<close>
  "py_slice_to s k =
     (if 0 \<le> k then take (nat k) s else take (nat (int (length s) + k)) s)"

section \<open>Field normalizers on text\<close>

definition clean_text :: "string option \<Rightarrow> int option \<Rightarrow> string" where
  "clean_text text max_length =
     (case text of
        None \<Rightarrow> []
      | Some t \<Rightarrow>
          if t = [] then []
          else
            let t1 = re_sub_runs is_crlftab t;
                t2 = re_sub_runs py_isspace t1;
                t3 = py_strip t2
            in (case max_length of
                  None \<Rightarrow> t3
                | Some m \<Rightarrow>
                    if m \<noteq> 0 \<and> m < int (length t3)
                    then py_slice_to t3 (m - 3) @ ''...''
                    else t3))"

definition clean_amenities :: "string option \<Rightarrow> int" where
  "clean_amenities amenities_str =
     (case amenities_str of
        None \<Rightarrow> 0
      | Some s \<Rightarrow>
          if s = [] then 0
          else
            let cleaned = py_strip_chars ''{}'' s
            in if cleaned \<noteq> []
               then int (length (map py_strip (py_split CHR '','' cleaned)))
               else 0)"

section \<open>Python numbers\<close>

text \<open>
  A Python \<open>int\<close> is an \<open>int\<close>. A Python \<open>float\<close> is an IEEE 754 binary64 value:
  a finite value is carried as the rational it denotes, and every operation rounds its
  exact result to the nearest binary64 value, ties to even, as the hardware and
  CPython's correctly rounded string conversions do. The two zeros are identified.
\<close>

datatype pyfloat = Fin rat | PInf | NInf | NaN

datatype error =
  AttributeError | ValueError | OverflowError | ZeroDivisionError | KeyError | TypeError

function log2_ge1 :: "rat \<Rightarrow> int" where
  \<comment> \<open>the exponent \<open>e\<close> with \<open>2^e \<le> q < 2^(e+1)\<close>, for \<open>1 \<le> q\<close>\<close>
  "log2_ge1 q = (if q < 2 then 0 else 1 + log2_ge1 (q / 2))"
  by pat_completeness auto
termination
proof (relation "measure (\<lambda>q. nat \<lfloor>q\<rfloor>)")
  show "wf (measure (\<lambda>q::rat. nat \<lfloor>q\<rfloor>))" by simp
next
  fix q :: rat
  assume "\<not> q < 2"
  then have q: "2 \<le> q" by simp
  define n where "n = \<lfloor>q\<rfloor>"
  have n2: "2 \<le> n" using q by (simp add: n_def le_floor_iff)
  then have "(2::rat) \<le> of_int n" by (metis of_int_le_iff of_int_numeral)
  moreover have "q < of_int n + 1" unfolding n_def by linarith
  ultimately have "q / 2 < of_int n" by linarith
  then have "\<lfloor>q / 2\<rfloor> < n" by (simp add: floor_less_iff)
  with n2 show "(q / 2, q) \<in> measure (\<lambda>q. nat \<lfloor>q\<rfloor>)" by (simp add: n_def)
qed

function log2_lt1 :: "rat \<Rightarrow> int" where
  \<comment> \<open>the same exponent, negative, for \<open>0 < q < 1\<close>\<close>
  "log2_lt1 q = (if q \<le> 0 \<or> 1 \<le> q then 0 else log2_lt1 (2 * q) - 1)"
  by pat_completeness auto
termination
proof (relation "measure (\<lambda>q. nat \<lfloor>1 / q\<rfloor>)")
  show "wf (measure (\<lambda>q::rat. nat \<lfloor>1 / q\<rfloor>))" by simp
next
  fix q :: rat
  assume "\<not> (q \<le> 0 \<or> 1 \<le> q)"
  then have q: "0 < q" "q < 1" by simp_all
  define x where "x = 1 / q"
  from q have x: "1 < x" by (simp add: x_def)
  then have n1: "1 \<le> \<lfloor>x\<rfloor>" by (simp add: le_floor_iff)
  then have "(1::rat) \<le> of_int \<lfloor>x\<rfloor>" by (metis of_int_le_iff of_int_1)
  moreover have "x < of_int \<lfloor>x\<rfloor> + 1" by linarith
  ultimately have "x / 2 < of_int \<lfloor>x\<rfloor>" by linarith
  then have lt: "\<lfloor>x / 2\<rfloor> < \<lfloor>x\<rfloor>" by (simp only: floor_less_iff)
  have e: "1 / (2 * q) = x / 2" by (simp add: x_def)
  have "nat \<lfloor>x / 2\<rfloor> < nat \<lfloor>x\<rfloor>" using lt n1 by linarith
  then show "(2 * q, q) \<in> measure (\<lambda>q. nat \<lfloor>1 / q\<rfloor>)"
    unfolding in_measure e by (simp only: x_def)
qed

definition ilog2 :: "rat \<Rightarrow> int" where
  "ilog2 q = (if 1 \<le> q then log2_ge1 q else log2_lt1 q)"

definition pow2 :: "int \<Rightarrow> rat" where
  "pow2 p = (if 0 \<le> p then 2 ^ nat p else 1 / 2 ^ nat (- p))"

definition round_half_even :: "rat \<Rightarrow> int" where
  "round_half_even r =
     (let f = \<lfloor>r\<rfloor>; d = r - of_int f
      in if d < 1 / 2 then f
         else if 1 / 2 < d then f + 1
         else if even f then f else f + 1)"

definition rnd64 :: "rat \<Rightarrow> pyfloat" where
  \<comment> \<open>the binary64 value nearest to \<open>q\<close>: 53 significant bits, least exponent -1074,
      overflow from \<open>2^1024 - 2^970\<close> on\<close>
  "rnd64 q =
     (if q = 0 then Fin 0
      else if 2 ^ 1024 - 2 ^ 970 \<le> \<bar>q\<bar> then (if 0 < q then PInf else NInf)
      else
        let e = ilog2 \<bar>q\<bar>;
            p = max (e - 52) (- 1074);
            m = round_half_even (\<bar>q\<bar> / pow2 p)
        in Fin (sgn q * of_int m * pow2 p))"

fun flt_le :: "pyfloat \<Rightarrow> pyfloat \<Rightarrow> bool" where
  \<comment> \<open>\<open>x <= y\<close>\<close>
  "flt_le NaN _ = False"
| "flt_le _ NaN = False"
| "flt_le NInf _ = True"
| "flt_le _ PInf = True"
| "flt_le (Fin a) (Fin b) = (a \<le> b)"
| "flt_le _ _ = False"

fun flt_lt :: "pyfloat \<Rightarrow> pyfloat \<Rightarrow> bool" where
  \<comment> \<open>\<open>x < y\<close>\<close>
  "flt_lt NaN _ = False"
| "flt_lt _ NaN = False"
| "flt_lt PInf _ = False"
| "flt_lt _ NInf = False"
| "flt_lt (Fin a) (Fin b) = (a < b)"
| "flt_lt _ _ = True"

definition py_round2 :: "pyfloat \<Rightarrow> error + pyfloat" where
  \<comment> \<open>\<open>round(x, 2)\<close>: the exact value rounded half-even to two decimals, then to binary64;
      infinities and NaN round to themselves\<close>
  "py_round2 x =
     (case x of
        Fin q \<Rightarrow>
          (case rnd64 (of_int (round_half_even (q * 100)) / 100) of
             Fin r \<Rightarrow> Inr (Fin r)
           | _ \<Rightarrow> Inl OverflowError)
      | _ \<Rightarrow> Inr x)"

definition py_int_of_float :: "pyfloat \<Rightarrow> error + int" where
  \<comment> \<open>\<open>int(x)\<close>: truncation towards zero\<close>
  "py_int_of_float x =
     (case x of
        Fin q \<Rightarrow> Inr (if 0 \<le> q then \<lfloor>q\<rfloor> else \<lceil>q\<rceil>)
      | NaN \<Rightarrow> Inl ValueError
      | _ \<Rightarrow> Inl OverflowError)"

definition py_float_of_int :: "int \<Rightarrow> error + pyfloat" where
  \<comment> \<open>the conversion of an \<open>int\<close> operand to \<open>float\<close>\<close>
  "py_float_of_int n =
     (case rnd64 (of_int n) of Fin r \<Rightarrow> Inr (Fin r) | _ \<Rightarrow> Inl OverflowError)"

definition py_truediv :: "pyfloat \<Rightarrow> int \<Rightarrow> error + pyfloat" where
  \<comment> \<open>\<open>x / n\<close> for a float \<open>x\<close> and an int \<open>n\<close>\<close>
  "py_truediv x n =
     (case py_float_of_int n of
        Inl e \<Rightarrow> Inl e
      | Inr d \<Rightarrow>
          (case d of
             Fin b \<Rightarrow>
               if b = 0 then Inl ZeroDivisionError
               else (case x of
                       Fin a \<Rightarrow> Inr (rnd64 (a / b))
                     | PInf \<Rightarrow> Inr (if 0 < b then PInf else NInf)
                     | NInf \<Rightarrow> Inr (if 0 < b then NInf else PInf)
                     | NaN \<Rightarrow> Inr NaN)
           | _ \<Rightarrow> Inr NaN))"

subsection \<open>Parsing numbers\<close>

definition num_isspace :: "char \<Rightarrow> bool" where
  \<comment> \<open>the whitespace that \<open>float()\<close> and \<open>int()\<close> skip around a literal\<close>
  "num_isspace c =
     (let n = (of_char c :: nat) in (9 \<le> n \<and> n \<le> 13) \<or> n = 32 \<or> n = 133 \<or> n = 160)"

definition ascii_lower_char :: "char \<Rightarrow> char" where
  "ascii_lower_char c =
     (let n = (of_char c :: nat) in if 65 \<le> n \<and> n \<le> 90 then char_of (n + 32) else c)"

definition dec_val :: "string \<Rightarrow> int" where
  \<comment> \<open>the number written by a string of decimal digits\<close>
  "dec_val ds = foldl (\<lambda>a c. 10 * a + (of_char c - 48)) 0 ds"

fun underscores_ok :: "char \<Rightarrow> string \<Rightarrow> bool" where
  \<comment> \<open>every underscore stands between two digits; the first argument is the character before\<close>
  "underscores_ok prev [] = True"
| "underscores_ok prev (c # cs) =
     (if c = CHR ''_''
      then is_decimal prev \<and> cs \<noteq> [] \<and> is_decimal (hd cs) \<and> underscores_ok c cs
      else underscores_ok c cs)"

definition drop_underscores :: "string \<Rightarrow> string option" where
  "drop_underscores s =
     (if underscores_ok CHR ''_'' s then Some (filter (\<lambda>c. c \<noteq> CHR ''_'') s) else None)"

definition split_sign :: "string \<Rightarrow> bool \<times> string" where
  \<comment> \<open>an optional leading sign; the flag says whether it is a minus\<close>
  "split_sign s =
     (case s of
        c # cs \<Rightarrow> if c = CHR ''-'' then (True, cs) else if c = CHR ''+'' then (False, cs) else (False, s)
      | [] \<Rightarrow> (False, []))"

definition parse_exponent :: "string \<Rightarrow> int option" where
  \<comment> \<open>what follows the mantissa: nothing, or \<open>e\<close>, an optional sign and digits\<close>
  "parse_exponent s =
     (case s of
        [] \<Rightarrow> Some 0
      | c # cs \<Rightarrow>
          if c = CHR ''e'' \<or> c = CHR ''E'' then
            (let (neg, ds) = split_sign cs
             in if ds \<noteq> [] \<and> list_all is_decimal ds
                then Some (if neg then - dec_val ds else dec_val ds)
                else None)
          else None)"

definition parse_decimal :: "string \<Rightarrow> rat option" where
  \<comment> \<open>an unsigned decimal literal: digits, an optional point and digits, an optional exponent\<close>
  "parse_decimal s =
     (let ip = takeWhile is_decimal s;
          r1 = dropWhile is_decimal s;
          fp = (case r1 of c # r \<Rightarrow> if c = CHR ''.'' then takeWhile is_decimal r else [] | [] \<Rightarrow> []);
          r2 = (case r1 of c # r \<Rightarrow> if c = CHR ''.'' then dropWhile is_decimal r else r1 | [] \<Rightarrow> [])
      in if ip = [] \<and> fp = [] then None
         else (case parse_exponent r2 of
                 None \<Rightarrow> None
               | Some ex \<Rightarrow>
                   Some ((of_int (dec_val ip) + of_int (dec_val fp) / 10 ^ length fp) * 
                         (if 0 \<le> ex then 10 ^ nat ex else 1 / 10 ^ nat (- ex)))))"

definition py_float :: "string \<Rightarrow> error + pyfloat" where
  \<comment> \<open>\<open>float(s)\<close> for a string\<close>
  "py_float s =
     (case drop_underscores (strip_with num_isspace s) of
        None \<Rightarrow> Inl ValueError
      | Some t \<Rightarrow>
          (let (neg, body) = split_sign t;
               low = map ascii_lower_char body
           in if low = ''inf'' \<or> low = ''infinity'' then Inr (if neg then NInf else PInf)
              else if low = ''nan'' then Inr NaN
              else (case parse_decimal body of
                      None \<Rightarrow> Inl ValueError
                    | Some q \<Rightarrow> Inr (rnd64 (if neg then - q else q)))))"

definition int_max_str_digits :: nat where
  \<comment> \<open>CPython's default limit on the digits of a decimal string converted to \<open>int\<close>\<close>
  "int_max_str_digits = 4300"

definition py_int :: "string \<Rightarrow> error + int" where
  \<comment> \<open>\<open>int(s)\<close> for a string, base 10\<close>
  "py_int s =
     (case drop_underscores (strip_with num_isspace s) of
        None \<Rightarrow> Inl ValueError
      | Some t \<Rightarrow>
          (let (neg, ds) = split_sign t
           in if ds \<noteq> [] \<and> list_all is_decimal ds \<and> length ds \<le> int_max_str_digits
              then Inr (if neg then - dec_val ds else dec_val ds)
              else Inl ValueError))"

definition py_isdigit :: "string \<Rightarrow> bool" where
  \<comment> \<open>\<open>s.isdigit()\<close>: besides 0-9 the superscript digits count as digits\<close>
  "py_isdigit s =
     (s \<noteq> [] \<and>
      list_all (\<lambda>c. is_decimal c \<or> c = CHR 0xB2 \<or> c = CHR 0xB3 \<or> c = CHR 0xB9) s)"

definition py_lower :: "string \<Rightarrow> string" where
  \<comment> \<open>\<open>s.lower()\<close>\<close>
  "py_lower s =
     map (\<lambda>c. let n = (of_char c :: nat)
               in if (65 \<le> n \<and> n \<le> 90) \<or> (192 \<le> n \<and> n \<le> 222 \<and> n \<noteq> 215)
                  then char_of (n + 32) else c) s"

fun py_contains :: "string \<Rightarrow> string \<Rightarrow> bool" where
  \<comment> \<open>\<open>sub in s\<close>\<close>
  "py_contains sub [] = (sub = [])"
| "py_contains sub (c # cs) = (take (length sub) (c # cs) = sub \<or> py_contains sub cs)"

section \<open>Field normalizers on numbers, flags and dates\<close>

definition clean_price :: "string option \<Rightarrow> pyfloat" where
  "clean_price price_str =
     (case price_str of
        None \<Rightarrow> Fin 0
      | Some s \<Rightarrow>
          if s = [] then Fin 0
          else
            let cleaned = filter (\<lambda>c. is_decimal c \<or> c = CHR ''.'') s
            in if cleaned \<noteq> []
               then (case py_float cleaned of
                       Inl e \<Rightarrow> Fin 0
                     | Inr x \<Rightarrow> (case py_round2 x of Inl e \<Rightarrow> Fin 0 | Inr r \<Rightarrow> r))
               else Fin 0)"

definition clean_float :: "string option \<Rightarrow> pyfloat" where
  "clean_float v =
     (case v of
        None \<Rightarrow> Fin 0
      | Some s \<Rightarrow>
          if s = [] \<or> s = ''N/A'' then Fin 0
          else (case py_float s of Inl e \<Rightarrow> Fin 0 | Inr x \<Rightarrow> x))"

definition clean_int :: "string option \<Rightarrow> int" where
  "clean_int v =
     (case v of
        None \<Rightarrow> 0
      | Some s \<Rightarrow>
          if s = [] \<or> s = ''N/A'' then 0
          else (case py_float s of
                  Inl e \<Rightarrow> 0
                | Inr x \<Rightarrow> (case py_int_of_float x of Inl e \<Rightarrow> 0 | Inr n \<Rightarrow> n)))"

definition clean_percentage :: "string option \<Rightarrow> pyfloat" where
  "clean_percentage percent_str =
     (case percent_str of
        None \<Rightarrow> Fin 0
      | Some s \<Rightarrow>
          if s = [] \<or> s = ''N/A'' then Fin 0
          else
            let cleaned = py_strip (filter (\<lambda>c. c \<noteq> CHR ''%'') s)
            in (case py_float cleaned of Inl e \<Rightarrow> Fin 0 | Inr x \<Rightarrow> x))"

definition py_str :: "string option \<Rightarrow> string" where
  \<comment> \<open>\<open>str(v)\<close> for a string or \<open>None\<close>\<close>
  "py_str v = (case v of None \<Rightarrow> ''None'' | Some s \<Rightarrow> s)"

definition convert_boolean :: "string option \<Rightarrow> int" where
  "convert_boolean v =
     (if py_lower (py_str v) \<in> set [''t'', ''true'', ''1'', ''yes''] then 1 else 0)"

subsection \<open>Dates\<close>

text \<open>
  \<open>datetime.strptime\<close> compiles a format into a regular expression, takes the first
  match from the start of the string in the order of the alternatives, and fails when
  text remains. The three directives used are \<open>%Y\<close> (four digits), \<open>%m\<close>
  (\<open>1[0-2]|0[1-9]|[1-9]\<close>) and \<open>%d\<close> (\<open>3[01]|[12]\d|0[1-9]|[1-9]| [1-9]\<close>).
\<close>

datatype fmt_item = Lit char | DirY | DirM | DirD

definition digit_in :: "char \<Rightarrow> nat \<Rightarrow> nat \<Rightarrow> bool" where
  "digit_in c lo hi = (let n = (of_char c :: nat) in 48 + lo \<le> n \<and> n \<le> 48 + hi)"

definition alt2 :: "nat \<Rightarrow> nat \<Rightarrow> nat \<Rightarrow> nat \<Rightarrow> string \<Rightarrow> (int \<times> string) list" where
  \<comment> \<open>one alternative of two digits, each within its range\<close>
  "alt2 lo1 hi1 lo2 hi2 s =
     (case s of
        a # b # r \<Rightarrow> if digit_in a lo1 hi1 \<and> digit_in b lo2 hi2 then [(dec_val [a, b], r)] else []
      | _ \<Rightarrow> [])"

definition alt1 :: "string \<Rightarrow> (int \<times> string) list" where
  \<comment> \<open>the alternative \<open>[1-9]\<close>\<close>
  "alt1 s = (case s of a # r \<Rightarrow> if digit_in a 1 9 then [(dec_val [a], r)] else [] | _ \<Rightarrow> [])"

definition item_alts :: "fmt_item \<Rightarrow> string \<Rightarrow> (int \<times> string) list" where
  \<comment> \<open>the ways an item matches a prefix of the string, in the order the expression tries them\<close>
  "item_alts it s =
     (case it of
        Lit c \<Rightarrow> (case s of a # r \<Rightarrow> if a = c then [(0, r)] else [] | [] \<Rightarrow> [])
      | DirY \<Rightarrow>
          (if 4 \<le> length s \<and> list_all is_decimal (take 4 s) then [(dec_val (take 4 s), drop 4 s)]
           else [])
      | DirM \<Rightarrow> alt2 1 1 0 2 s @ alt2 0 0 1 9 s @ alt1 s
      | DirD \<Rightarrow>
          alt2 3 3 0 1 s @ alt2 1 2 0 9 s @ alt2 0 0 1 9 s @ alt1 s
          @ (case s of a # r \<Rightarrow> if a = CHR '' '' then alt1 r else [] | [] \<Rightarrow> []))"

fun first_some :: "('a \<Rightarrow> 'b option) \<Rightarrow> 'a list \<Rightarrow> 'b option" where
  "first_some f [] = None"
| "first_some f (x # xs) = (case f x of Some y \<Rightarrow> Some y | None \<Rightarrow> first_some f xs)"

fun re_match :: "fmt_item list \<Rightarrow> string \<Rightarrow> ((fmt_item \<times> int) list \<times> string) option" where
  \<comment> \<open>the first match with backtracking: the values of the items and the text left over\<close>
  "re_match [] s = Some ([], s)"
| "re_match (it # its) s =
     first_some
       (\<lambda>(v, r). case re_match its r of
                   None \<Rightarrow> None
                 | Some (vs, rest) \<Rightarrow> Some ((it, v) # vs, rest))
       (item_alts it s)"

definition is_leap :: "int \<Rightarrow> bool" where
  "is_leap y = (y mod 4 = 0 \<and> (y mod 100 \<noteq> 0 \<or> y mod 400 = 0))"

definition days_in_month :: "int \<Rightarrow> int \<Rightarrow> int" where
  "days_in_month y m =
     (if m = 2 then (if is_leap y then 29 else 28)
      else if m = 4 \<or> m = 6 \<or> m = 9 \<or> m = 11 then 30 else 31)"

definition strptime :: "string \<Rightarrow> fmt_item list \<Rightarrow> error + (int \<times> int \<times> int)" where
  \<comment> \<open>\<open>datetime.strptime(s, fmt)\<close>, as year, month and day\<close>
  "strptime s fmt =
     (case re_match fmt s of
        None \<Rightarrow> Inl ValueError
      | Some (vs, rest) \<Rightarrow>
          if rest \<noteq> [] then Inl ValueError
          else
            (case (map_of vs DirY, map_of vs DirM, map_of vs DirD) of
               (Some y, Some m, Some d) \<Rightarrow>
                 if 1 \<le> y \<and> d \<le> days_in_month y m then Inr (y, m, d) else Inl ValueError
             | _ \<Rightarrow> Inl ValueError))"

function show_nat :: "nat \<Rightarrow> string" where
  \<comment> \<open>a number in decimal\<close>
  "show_nat n =
     (if n < 10 then [char_of (48 + n)] else show_nat (n div 10) @ [char_of (48 + n mod 10)])"
  by pat_completeness auto
termination
  by (relation "measure (\<lambda>n. n)") auto

definition two_digits :: "int \<Rightarrow> string" where
  "two_digits n = (if n < 10 then CHR ''0'' # show_nat (nat n) else show_nat (nat n))"

definition strftime_ymd :: "int \<times> int \<times> int \<Rightarrow> string" where
  \<comment> \<open>\<open>dt.strftime('%Y-%m-%d')\<close>; the C library writes the year without padding\<close>
  "strftime_ymd dt =
     (case dt of (y, m, d) \<Rightarrow> show_nat (nat y) @ ''-'' @ two_digits m @ ''-'' @ two_digits d)"

definition date_formats :: "fmt_item list list" where
  \<comment> \<open>\<open>['%Y/%m/%d', '%Y-%m-%d', '%m/%d/%Y']\<close>\<close>
  "date_formats =
     [[DirY, Lit CHR ''/'', DirM, Lit CHR ''/'', DirD],
      [DirY, Lit CHR ''-'', DirM, Lit CHR ''-'', DirD],
      [DirM, Lit CHR ''/'', DirD, Lit CHR ''/'', DirY]]"

definition clean_date :: "string option \<Rightarrow> string" where
  "clean_date date_str =
     (case date_str of
        None \<Rightarrow> []
      | Some s \<Rightarrow>
          if s = [] then []
          else (case first_some
                       (\<lambda>fmt. case strptime s fmt of Inl e \<Rightarrow> None | Inr dt \<Rightarrow> Some (strftime_ymd dt))
                       date_formats of
                  Some out \<Rightarrow> out
                | None \<Rightarrow> s))"

section \<open>Categorizers\<close>

definition simplify_room_type :: "string option \<Rightarrow> string" where
  "simplify_room_type room_type =
     (case room_type of
        None \<Rightarrow> ''Other''
      | Some s \<Rightarrow>
          if s = [] then ''Other''
          else
            let room_lower = py_lower s
            in if py_contains ''entire'' room_lower \<or> py_contains ''apt'' room_lower then ''Entire''
               else if py_contains ''private'' room_lower then ''Private''
               else if py_contains ''shared'' room_lower then ''Shared''
               else ''Other'')"

definition categorize_price :: "pyfloat \<Rightarrow> string" where
  "categorize_price price =
     (if flt_le price (Fin 0) then ''unknown''
      else if flt_lt price (Fin 75) then ''budget''
      else if flt_lt price (Fin 150) then ''moderate''
      else if flt_lt price (Fin 300) then ''expensive''
      else ''luxury'')"

definition categorize_reviews :: "int \<Rightarrow> string" where
  "categorize_reviews cnt =
     (if cnt = 0 then ''no_reviews''
      else if cnt < 5 then ''few''
      else if cnt < 20 then ''moderate''
      else if cnt < 50 then ''many''
      else ''very_popular'')"

definition categorize_host :: "int \<Rightarrow> pyfloat \<Rightarrow> string" where
  "categorize_host is_superhost response_rate =
     (if is_superhost \<noteq> 0 then ''superhost''
      else if flt_le (Fin 90) response_rate then ''responsive''
      else if flt_le (Fin 50) response_rate then ''moderate''
      else ''low_response'')"

definition categorize_availability :: "int \<Rightarrow> string" where
  "categorize_availability days =
     (if days = 0 then ''not_available''
      else if days < 30 then ''rarely_available''
      else if days < 180 then ''occasionally_available''
      else if days < 300 then ''mostly_available''
      else ''highly_available'')"

section \<open>Records\<close>

text \<open>
  A raw row is the dictionary that the CSV reader yields: a column maps to its text, or
  to \<open>None\<close> when the line is shorter than the header. A cleaned record is a dictionary
  in the order of its keys. Both are association lists, looked up with \<open>map_of\<close>.
\<close>

datatype pyval = VNone | VStr string | VInt int | VFloat pyfloat

type_synonym pydict = "(string \<times> pyval) list"

type_synonym raw_row = "(string \<times> string option) list"

definition row_get :: "raw_row \<Rightarrow> string \<Rightarrow> string \<Rightarrow> string option" where
  \<comment> \<open>\<open>row.get(key, default)\<close>\<close>
  "row_get row key dflt = (case map_of row key of None \<Rightarrow> Some dflt | Some v \<Rightarrow> v)"

definition strip_method :: "string option \<Rightarrow> error + string" where
  \<comment> \<open>\<open>v.strip()\<close>; \<open>None\<close> has no such method\<close>
  "strip_method v = (case v of None \<Rightarrow> Inl AttributeError | Some s \<Rightarrow> Inr (py_strip s))"

definition stripped :: "string option \<Rightarrow> error + pyval" where
  "stripped v = (case strip_method v of Inl e \<Rightarrow> Inl e | Inr s \<Rightarrow> Inr (VStr s))"

definition plain :: "string option \<Rightarrow> error + pyval" where
  \<comment> \<open>a value copied as it is\<close>
  "plain v = Inr (case v of None \<Rightarrow> VNone | Some s \<Rightarrow> VStr s)"

fun build_dict :: "(string \<times> (error + pyval)) list \<Rightarrow> error + pydict" where
  \<comment> \<open>a dictionary display: the values are computed in order, the first exception ends it\<close>
  "build_dict [] = Inr []"
| "build_dict ((k, v) # es) =
     (case v of
        Inl e \<Rightarrow> Inl e
      | Inr x \<Rightarrow> (case build_dict es of Inl e \<Rightarrow> Inl e | Inr d \<Rightarrow> Inr ((k, x) # d)))"

section \<open>Record transformer\<close>

definition price_per_guest :: "pyfloat \<Rightarrow> int \<Rightarrow> error + pyval" where
  \<comment> \<open>\<open>round(price / max(accommodates, 1), 2)\<close>\<close>
  "price_per_guest price accommodates =
     (case py_truediv price (max accommodates 1) of
        Inl e \<Rightarrow> Inl e
      | Inr q \<Rightarrow> (case py_round2 q of Inl e \<Rightarrow> Inl e | Inr r \<Rightarrow> Inr (VFloat r)))"

definition record_fields :: "raw_row \<Rightarrow> pyfloat \<Rightarrow> (string \<times> (error + pyval)) list" where
  \<comment> \<open>the keys of the cleaned record with the expressions that give their values\<close>
  "record_fields row price =
      [(''id'', stripped (row_get row ''id'' '''')),
       (''listing_url'', plain (row_get row ''listing_url'' '''')),
       (''last_scraped'', plain (row_get row ''last_scraped'' '''')),
       (''name'', Inr (VStr (clean_text (row_get row ''name'' '''') (Some 200)))),
       (''description'', Inr (VStr (clean_text (row_get row ''description'' '''') (Some 1000)))),
       (''property_type'', plain (row_get row ''property_type'' ''Unknown'')),
       (''room_type'', plain (row_get row ''room_type'' ''Unknown'')),
       (''host_id'', stripped (row_get row ''host_id'' '''')),
       (''host_name'', Inr (VStr (clean_text (row_get row ''host_name'' '''') (Some 100)))),
       (''host_since'', Inr (VStr (clean_date (row_get row ''host_since'' '''')))),
       (''host_response_time'', plain (row_get row ''host_response_time'' ''N/A'')),
       (''host_response_rate'', Inr (VFloat (clean_percentage (row_get row ''host_response_rate'' '''')))),
       (''host_acceptance_rate'', Inr (VFloat (clean_percentage (row_get row ''host_acceptance_rate'' '''')))),
       (''host_is_superhost'', Inr (VInt (convert_boolean (row_get row ''host_is_superhost'' ''f'')))),
       (''host_listings_count'', Inr (VInt (clean_int (row_get row ''host_listings_count'' ''0'')))),
       (''host_identity_verified'', Inr (VInt (convert_boolean (row_get row ''host_identity_verified'' ''f'')))),
       (''street'', Inr (VStr (clean_text (row_get row ''street'' '''') (Some 200)))),
       (''neighbourhood'', stripped (row_get row ''neighbourhood'' '''')),
       (''neighbourhood_cleansed'', stripped (row_get row ''neighbourhood_cleansed'' '''')),
       (''neighbourhood_group_cleansed'', stripped (row_get row ''neighbourhood_group_cleansed'' '''')),
       (''city'', stripped (row_get row ''city'' ''Seattle'')),
       (''state'', stripped (row_get row ''state'' ''WA'')),
       (''zipcode'', stripped (row_get row ''zipcode'' '''')),
       (''latitude'', Inr (VFloat (clean_float (row_get row ''latitude'' ''0'')))),
       (''longitude'', Inr (VFloat (clean_float (row_get row ''longitude'' ''0'')))),
       (''is_location_exact'', Inr (VInt (convert_boolean (row_get row ''is_location_exact'' ''f'')))),
       (''accommodates'', Inr (VInt (clean_int (row_get row ''accommodates'' ''0'')))),
       (''bathrooms'', Inr (VFloat (clean_float (row_get row ''bathrooms'' ''0'')))),
       (''bedrooms'', Inr (VInt (clean_int (row_get row ''bedrooms'' ''0'')))),
       (''beds'', Inr (VInt (clean_int (row_get row ''beds'' ''0'')))),
       (''bed_type'', plain (row_get row ''bed_type'' ''Unknown'')),
       (''amenities'', Inr (VInt (clean_amenities (row_get row ''amenities'' ''{}'')))),
       (''square_feet'', Inr (VInt (clean_int (row_get row ''square_feet'' ''0'')))),
       (''price'', Inr (VFloat price)),
       (''weekly_price'', Inr (VFloat (clean_price (row_get row ''weekly_price'' ''0'')))),
       (''monthly_price'', Inr (VFloat (clean_price (row_get row ''monthly_price'' ''0'')))),
       (''security_deposit'', Inr (VFloat (clean_price (row_get row ''security_deposit'' ''0'')))),
       (''cleaning_fee'', Inr (VFloat (clean_price (row_get row ''cleaning_fee'' ''0'')))),
       (''guests_included'', Inr (VInt (clean_int (row_get row ''guests_included'' ''1'')))),
       (''extra_people'', Inr (VFloat (clean_price (row_get row ''extra_people'' ''0'')))),
       (''minimum_nights'', Inr (VInt (clean_int (row_get row ''minimum_nights'' ''1'')))),
       (''maximum_nights'', Inr (VInt (clean_int (row_get row ''maximum_nights'' ''365'')))),
       (''instant_bookable'', Inr (VInt (convert_boolean (row_get row ''instant_bookable'' ''f'')))),
       (''cancellation_policy'', plain (row_get row ''cancellation_policy'' ''flexible'')),
       (''has_availability'', Inr (VInt (convert_boolean (row_get row ''has_availability'' ''t'')))),
       (''availability_30'', Inr (VInt (clean_int (row_get row ''availability_30'' ''0'')))),
       (''availability_60'', Inr (VInt (clean_int (row_get row ''availability_60'' ''0'')))),
       (''availability_90'', Inr (VInt (clean_int (row_get row ''availability_90'' ''0'')))),
       (''availability_365'', Inr (VInt (clean_int (row_get row ''availability_365'' ''0'')))),
       (''number_of_reviews'', Inr (VInt (clean_int (row_get row ''number_of_reviews'' ''0'')))),
       (''first_review'', Inr (VStr (clean_date (row_get row ''first_review'' '''')))),
       (''last_review'', Inr (VStr (clean_date (row_get row ''last_review'' '''')))),
       (''review_scores_rating'', Inr (VFloat (clean_float (row_get row ''review_scores_rating'' ''0'')))),
       (''review_scores_accuracy'', Inr (VFloat (clean_float (row_get row ''review_scores_accuracy'' ''0'')))),
       (''review_scores_cleanliness'', Inr (VFloat (clean_float (row_get row ''review_scores_cleanliness'' ''0'')))),
       (''review_scores_checkin'', Inr (VFloat (clean_float (row_get row ''review_scores_checkin'' ''0'')))),
       (''review_scores_communication'', Inr (VFloat (clean_float (row_get row ''review_scores_communication'' ''0'')))),
       (''review_scores_location'', Inr (VFloat (clean_float (row_get row ''review_scores_location'' ''0'')))),
       (''review_scores_value'', Inr (VFloat (clean_float (row_get row ''review_scores_value'' ''0'')))),
       (''reviews_per_month'', Inr (VFloat (clean_float (row_get row ''reviews_per_month'' ''0'')))),
       (''price_category'', Inr (VStr (categorize_price price))),
       (''review_category'',
          Inr (VStr (categorize_reviews (clean_int (row_get row ''number_of_reviews'' ''0''))))),
       (''host_category'',
          Inr (VStr (categorize_host
                       (convert_boolean (row_get row ''host_is_superhost'' ''f''))
                       (clean_percentage (row_get row ''host_response_rate'' ''''))))),
       (''availability_category'',
          Inr (VStr (categorize_availability (clean_int (row_get row ''availability_365'' ''0''))))),
       (''room_type_simplified'', Inr (VStr (simplify_room_type (row_get row ''room_type'' '''')))),
       (''is_professional_host'',
          Inr (VInt (if 3 < clean_int (row_get row ''host_listings_count'' ''0'') then 1 else 0))),
       (''has_cleaning_fee'',
          Inr (VInt (if flt_lt (Fin 0) (clean_price (row_get row ''cleaning_fee'' ''0'')) then 1 else 0))),
       (''price_per_guest'', price_per_guest price (clean_int (row_get row ''accommodates'' ''1'')))]"

definition cleaned_record :: "raw_row \<Rightarrow> pyfloat \<Rightarrow> error + pydict" where
  \<comment> \<open>the dictionary display that builds the cleaned record\<close>
  "cleaned_record row price = build_dict (record_fields row price)"

datatype outcome = Accepted pydict | Skipped | Errored error

definition is_blank_row :: "raw_row \<Rightarrow> error + bool" where
  \<comment> \<open>\<open>not row.get('id', '').strip() and not row.get('name', '').strip()\<close>;
      the name is only looked at when the id is blank\<close>
  "is_blank_row row =
     (case strip_method (row_get row ''id'' '''') of
        Inl e \<Rightarrow> Inl e
      | Inr i \<Rightarrow>
          if i \<noteq> [] then Inr False
          else (case strip_method (row_get row ''name'' '''') of
                  Inl e \<Rightarrow> Inl e
                | Inr n \<Rightarrow> Inr (n = [])))"

definition process_row :: "raw_row \<Rightarrow> outcome" where
  \<comment> \<open>the body of the loop over the raw rows, inside its \<open>try\<close>\<close>
  "process_row row =
     (case is_blank_row row of
        Inl e \<Rightarrow> Errored e
      | Inr blank \<Rightarrow>
          if blank then Skipped
          else
            let price = clean_price (row_get row ''price'' ''0'')
            in if flt_le price (Fin 0) \<or> flt_lt (Fin 10000) price then Skipped
               else (case strip_method (row_get row ''id'' '''') of
                       Inl e \<Rightarrow> Errored e
                     | Inr i \<Rightarrow>
                         if i = [] then Skipped
                         else (case cleaned_record row price of
                                 Inl e \<Rightarrow> Errored e
                               | Inr r \<Rightarrow> Accepted r)))"

section \<open>Pipeline driver\<close>

fun transform_rows :: "raw_row list \<Rightarrow> pydict list \<Rightarrow> int \<Rightarrow> pydict list \<times> int" where
  \<comment> \<open>the loop, carrying \<open>cleaned_rows\<close> and \<open>error_count\<close>\<close>
  "transform_rows [] cleaned errs = (cleaned, errs)"
| "transform_rows (row # rows) cleaned errs =
     (case process_row row of
        Accepted r \<Rightarrow> transform_rows rows (cleaned @ [r]) errs
      | Skipped \<Rightarrow> transform_rows rows cleaned errs
      | Errored e \<Rightarrow> transform_rows rows cleaned (errs + 1))"

record pipeline_result =
  cleaned_rows :: "pydict list"
  raw_count :: int
  clean_count :: int
  removed_count :: int
  error_count :: int

definition run_transform :: "raw_row list \<Rightarrow> pipeline_result" where
  \<comment> \<open>the transformation pass with the metrics computed after the loop\<close>
  "run_transform raw_rows =
     (case transform_rows raw_rows [] 0 of
        (cleaned, errs) \<Rightarrow>
          \<lparr>cleaned_rows = cleaned,
           raw_count = int (length raw_rows),
           clean_count = int (length cleaned),
           removed_count = int (length raw_rows) - int (length cleaned),
           error_count = errs\<rparr>)"

text \<open>
  What a run of the handler reads from outside the rows: the clock, at the start and
  when the output is named.
\<close>

record invocation =
  start_time :: string
  timestamp :: string

record handler_result =
  metrics_start_time :: string
  output_key :: "string option"
  pipeline :: pipeline_result

definition lambda_handler :: "invocation \<Rightarrow> raw_row list \<Rightarrow> handler_result" where
  \<comment> \<open>the handler between reading the rows and writing the output: the pass over the
      rows, and the name of the output object when some row was accepted\<close>
  "lambda_handler ctx raw_rows =
     (let res = run_transform raw_rows
      in \<lparr>metrics_start_time = start_time ctx,
          output_key =
            (if cleaned_rows res \<noteq> []
             then Some (''clean_listings_'' @ timestamp ctx @ ''.csv'') else None),
          pipeline = res\<rparr>)"

section \<open>Sorting and numbering stage\<close>

definition id_sort_key :: "pydict \<Rightarrow> error + int" where
  \<comment> \<open>\<open>int(x['id']) if x['id'].isdigit() else 0\<close>\<close>
  "id_sort_key x =
     (case map_of x ''id'' of
        None \<Rightarrow> Inl KeyError
      | Some v \<Rightarrow>
          (case v of
             VStr s \<Rightarrow> if py_isdigit s then py_int s else Inr 0
           | _ \<Rightarrow> Inl AttributeError))"

fun map_result :: "('a \<Rightarrow> error + 'b) \<Rightarrow> 'a list \<Rightarrow> error + 'b list" where
  "map_result f [] = Inr []"
| "map_result f (x # xs) =
     (case f x of
        Inl e \<Rightarrow> Inl e
      | Inr y \<Rightarrow> (case map_result f xs of Inl e \<Rightarrow> Inl e | Inr ys \<Rightarrow> Inr (y # ys)))"

definition py_sort :: "('a \<Rightarrow> error + int) \<Rightarrow> 'a list \<Rightarrow> error + 'a list" where
  \<comment> \<open>\<open>xs.sort(key=f)\<close>: the keys are computed first, then the list is sorted stably by them\<close>
  "py_sort f xs =
     (case map_result f xs of
        Inl e \<Rightarrow> Inl e
      | Inr ks \<Rightarrow> Inr (map snd (sort_key fst (zip ks xs))))"

fun assign_sequential_id :: "int \<Rightarrow> pydict list \<Rightarrow> pydict list" where
  \<comment> \<open>\<open>for i, row in enumerate(rows, start): row['sequential_id'] = i\<close>\<close>
  "assign_sequential_id i [] = []"
| "assign_sequential_id i (row # rows) =
     AList.update ''sequential_id'' (VInt i) row # assign_sequential_id (i + 1) rows"

definition sequential_id_stage :: "pydict list \<Rightarrow> error + pydict list" where
  "sequential_id_stage rows =
     (case py_sort id_sort_key rows of
        Inl e \<Rightarrow> Inl e
      | Inr sorted_rows \<Rightarrow> Inr (assign_sequential_id 1 sorted_rows))"

section \<open>Auxiliary notions used in the statements and proofs\<close>

text \<open>
  The amenity counter as the specification words it: one pair of enclosing braces is
  removed, the rest is split on commas, every item is trimmed and the non-empty items
  are counted.
\<close>

definition strip_brace_pair :: "string \<Rightarrow> string" where
  "strip_brace_pair s =
     (if 2 \<le> length s \<and> hd s = CHR ''{'' \<and> last s = CHR ''}'' then butlast (tl s) else s)"

definition amenity_count_spec :: "string \<Rightarrow> int" where
  "amenity_count_spec s =
     (if s = [] then 0
      else int (length (filter (\<lambda>i. i \<noteq> [])
                 (map py_strip (py_split CHR '','' (strip_brace_pair s))))))"

text \<open>
  A string is \<open>spaced\<close> when its only whitespace characters are single spaces, each
  followed by a non-whitespace character; it is \<open>tidy\<close> when moreover it neither
  starts nor ends with whitespace.
\<close>

fun spaced :: "string \<Rightarrow> bool" where
  "spaced [] = True"
| "spaced [c] = (py_isspace c \<longrightarrow> c = CHR '' '')"
| "spaced (c # d # cs) =
     ((py_isspace c \<longrightarrow> c = CHR '' '' \<and> \<not> py_isspace d) \<and> spaced (d # cs))"

definition tidy :: "string \<Rightarrow> bool" where
  "tidy s = (spaced s \<and> (s = [] \<or> (\<not> py_isspace (hd s) \<and> \<not> py_isspace (last s))))"

text \<open>
  For the sorting stage. The specification's numeric value of an id: the number that
  the id writes when it is made of the digits 0-9 only, and 0 for any other id.
\<close>

definition numeric_id :: "string \<Rightarrow> int" where
  "numeric_id s = (if s \<noteq> [] \<and> list_all is_decimal s then dec_val s else 0)"

definition id_value :: "pydict \<Rightarrow> int" where
  "id_value r = (case map_of r ''id'' of Some (VStr s) \<Rightarrow> numeric_id s | _ \<Rightarrow> 0)"

definition code_key :: "pydict \<Rightarrow> int" where
  \<comment> \<open>a device of the proofs: the key that the code computes, 0 where computing it raises\<close>
  "code_key r = (case id_sort_key r of Inr k \<Rightarrow> k | Inl e \<Rightarrow> 0)"

definition plain_id :: "pydict \<Rightarrow> bool" where
  \<comment> \<open>the id is a string and, when \<open>isdigit\<close> accepts it, it is made of at most 4300 of the
      digits 0-9: the ids that \<open>int\<close> reads\<close>
  "plain_id r =
     (case map_of r ''id'' of
        Some (VStr s) \<Rightarrow>
          \<not> py_isdigit s \<or> (list_all is_decimal s \<and> length s \<le> int_max_str_digits)
      | _ \<Rightarrow> False)"

text \<open>
  For the pipeline: what became of a raw row.
\<close>

definition is_accepted :: "raw_row \<Rightarrow> bool" where
  "is_accepted row = (case process_row row of Accepted r \<Rightarrow> True | _ \<Rightarrow> False)"

definition is_skipped :: "raw_row \<Rightarrow> bool" where
  "is_skipped row = (case process_row row of Skipped \<Rightarrow> True | _ \<Rightarrow> False)"

definition is_errored :: "raw_row \<Rightarrow> bool" where
  "is_errored row = (case process_row row of Errored e \<Rightarrow> True | _ \<Rightarrow> False)"

definition accepted_record :: "raw_row \<Rightarrow> pydict" where
  "accepted_record row = (case process_row row of Accepted r \<Rightarrow> r | _ \<Rightarrow> [])"

text \<open>Concrete rows used below.\<close>

definition superscript_row :: raw_row where
  "superscript_row = [(''id'', Some [CHR 0xB2]), (''price'', Some ''50'')]"

definition plain_rows_then_superscript :: "raw_row list" where
  "plain_rows_then_superscript =
     [[(''id'', Some ''a''), (''price'', Some ''50'')],
      [(''id'', Some ''b''), (''price'', Some ''50'')],
      superscript_row]"


text \<open>
  The three raw rows of the end-to-end example: each has exactly the columns named.
\<close>

definition listing_10 :: raw_row where
  "listing_10 =
     [(''price'', Some ''$1,200.50''), (''id'', Some ''10''), (''accommodates'', Some ''4''),
      (''host_listings_count'', Some ''5'')]"

definition listing_11 :: raw_row where
  "listing_11 = [(''price'', Some ''0''), (''id'', Some ''11'')]"

definition listing_blank_id :: raw_row where
  "listing_blank_id = [(''id'', Some ''''), (''price'', Some ''50'')]"

definition three_rows :: "raw_row list" where
  "three_rows = [listing_10, listing_11, listing_blank_id]"

section \<open>Properties of the text normalizers\<close>

lemma strip_with_Nil [simp]: "strip_with p [] = []"
  by (simp add: strip_with_def)

subsection \<open>Stripping and whitespace runs\<close>

lemma strip_with_prefix: "\<exists>n. rev (dropWhile p (rev xs)) = take n xs"
proof -
  have "rev (dropWhile p (rev xs)) = rev (drop (length (takeWhile p (rev xs))) (rev xs))"
    by (simp add: dropWhile_eq_drop)
  also have "\<dots> = take (length xs - length (takeWhile p (rev xs))) xs"
    by (simp add: rev_drop)
  finally show ?thesis by blast
qed

lemma strip_with_ends:
  "strip_with p s = [] \<or> (\<not> p (hd (strip_with p s)) \<and> \<not> p (last (strip_with p s)))"
proof (cases "strip_with p s = []")
  case True
  then show ?thesis by simp
next
  case False
  let ?d = "dropWhile p s"
  let ?e = "dropWhile p (rev ?d)"
  from False have e: "?e \<noteq> []" by (simp add: strip_with_def)
  then have "\<not> p (hd ?e)" by (rule hd_dropWhile)
  then have l: "\<not> p (last (strip_with p s))"
    using e by (simp add: strip_with_def last_rev)
  from e have d: "?d \<noteq> []" by (auto simp del: dropWhile_eq_Nil_conv)
  then have hd_d: "\<not> p (hd ?d)" by (rule hd_dropWhile)
  obtain n where n: "rev ?e = take n ?d" using strip_with_prefix [of p ?d] by blast
  with e have "n \<noteq> 0" by (cases n) auto
  with n d have "hd (rev ?e) = hd ?d" by (cases ?d; cases n) auto
  with hd_d have "\<not> p (hd (strip_with p s))" by (simp add: strip_with_def)
  with l show ?thesis by simp
qed

lemma dropWhile_hd_id: "xs \<noteq> [] \<Longrightarrow> \<not> p (hd xs) \<Longrightarrow> dropWhile p xs = xs"
  by (cases xs) auto

lemma strip_with_id:
  assumes "s = [] \<or> (\<not> p (hd s) \<and> \<not> p (last s))"
  shows "strip_with p s = s"
proof (cases s)
  case Nil
  then show ?thesis by simp
next
  case (Cons c cs)
  with assms have h: "\<not> p c" and l: "\<not> p (last s)" by auto
  from h Cons have 1: "dropWhile p s = s" by simp
  from Cons have "rev s \<noteq> []" by simp
  moreover have "hd (rev s) = last s" using Cons by (simp add: hd_rev)
  ultimately have "dropWhile p (rev s) = rev s" using l by (simp add: dropWhile_hd_id)
  with 1 show ?thesis by (simp add: strip_with_def)
qed

lemma spaced_Cons:
  "spaced (c # xs) =
     ((py_isspace c \<longrightarrow> c = CHR '' '' \<and> (xs \<noteq> [] \<longrightarrow> \<not> py_isspace (hd xs))) \<and> spaced xs)"
  by (cases xs) auto

lemma re_sub_runs_hd:
  "\<not> p (hd (dropWhile p cs)) \<or> dropWhile p cs = [] \<Longrightarrow>
   re_sub_runs p (dropWhile p cs) \<noteq> [] \<Longrightarrow> \<not> p (hd (re_sub_runs p (dropWhile p cs)))"
  by (cases "dropWhile p cs") auto

lemma re_sub_runs_hd':
  "re_sub_runs p (dropWhile p cs) \<noteq> [] \<Longrightarrow> \<not> p (hd (re_sub_runs p (dropWhile p cs)))"
proof -
  assume a: "re_sub_runs p (dropWhile p cs) \<noteq> []"
  then have "dropWhile p cs \<noteq> []" by (auto simp del: dropWhile_eq_Nil_conv)
  then have "\<not> p (hd (dropWhile p cs))" by (rule hd_dropWhile)
  with a show ?thesis by (cases "dropWhile p cs") auto
qed

lemma spaced_re_sub_runs: "spaced (re_sub_runs py_isspace s)"
proof (induction py_isspace s rule: re_sub_runs.induct)
  case 1
  show ?case by simp
next
  case (2 c cs)
  show ?case
  proof (cases "py_isspace c")
    case True
    with 2 have "spaced (re_sub_runs py_isspace (dropWhile py_isspace cs))" by simp
    with True re_sub_runs_hd' [of py_isspace cs] show ?thesis
      by (simp add: spaced_Cons)
  next
    case False
    with 2 show ?thesis by (simp add: spaced_Cons)
  qed
qed

lemma re_sub_runs_none: "\<forall>c \<in> set s. \<not> p c \<Longrightarrow> re_sub_runs p s = s"
  by (induction s) auto

lemma spaced_no_crlftab: "spaced s \<Longrightarrow> c \<in> set s \<Longrightarrow> \<not> is_crlftab c"
proof (induction s)
  case Nil
  then show ?case by simp
next
  case (Cons a s)
  then show ?case
    by (auto simp: spaced_Cons is_crlftab_def py_isspace_def)
qed

lemma re_sub_runs_spaced: "spaced s \<Longrightarrow> re_sub_runs py_isspace s = s"
proof (induction s)
  case Nil
  then show ?case by simp
next
  case (Cons a s)
  then have sp: "spaced s" by (simp add: spaced_Cons)
  show ?case
  proof (cases "py_isspace a")
    case True
    with Cons.prems have a: "a = CHR '' ''" and h: "s \<noteq> [] \<longrightarrow> \<not> py_isspace (hd s)"
      by (simp_all add: spaced_Cons)
    from h have "dropWhile py_isspace s = s" by (cases s) auto
    with True a Cons.IH sp show ?thesis by simp
  next
    case False
    with Cons.IH sp show ?thesis by simp
  qed
qed

lemma spaced_take: "spaced s \<Longrightarrow> spaced (take n s)"
proof (induction s arbitrary: n)
  case Nil
  then show ?case by simp
next
  case (Cons a s)
  show ?case
  proof (cases n)
    case 0
    then show ?thesis by simp
  next
    case (Suc k)
    from Cons have "spaced (take k s)" by (simp add: spaced_Cons)
    moreover have "take k s \<noteq> [] \<Longrightarrow> hd (take k s) = hd s \<and> s \<noteq> []" by (cases s; cases k) auto
    ultimately show ?thesis using Cons.prems Suc by (auto simp: spaced_Cons)
  qed
qed

lemma spaced_dropWhile: "spaced s \<Longrightarrow> spaced (dropWhile p s)"
  by (induction s) (auto simp: spaced_Cons)

lemma spaced_strip_with: "spaced s \<Longrightarrow> spaced (strip_with p s)"
proof -
  assume "spaced s"
  then have d: "spaced (dropWhile p s)" by (rule spaced_dropWhile)
  obtain n where "rev (dropWhile p (rev (dropWhile p s))) = take n (dropWhile p s)"
    using strip_with_prefix [of p "dropWhile p s"] by blast
  with d show ?thesis by (simp add: strip_with_def spaced_take)
qed

lemma spaced_append:
  "spaced xs \<Longrightarrow> spaced ys \<Longrightarrow> ys \<noteq> [] \<Longrightarrow> \<not> py_isspace (hd ys) \<Longrightarrow> spaced (xs @ ys)"
proof (induction xs)
  case Nil
  then show ?case by simp
next
  case (Cons a xs)
  then show ?case by (cases xs) (auto simp: spaced_Cons)
qed

lemma tidy_Nil [simp]: "tidy []"
  by (simp add: tidy_def)

lemma tidy_normalise: "tidy (py_strip (re_sub_runs py_isspace s))"
  unfolding tidy_def py_strip_def
  using strip_with_ends [of py_isspace "re_sub_runs py_isspace s"]
  by (simp add: spaced_strip_with spaced_re_sub_runs)

lemma clean_text_None_tidy: "tidy (clean_text raw None)"
  by (simp add: clean_text_def Let_def tidy_normalise split: option.splits)

lemma clean_text_trunc:
  "3 \<le> m \<Longrightarrow>
   clean_text raw (Some m) =
     (if m < int (length (clean_text raw None))
      then take (nat (m - 3)) (clean_text raw None) @ ''...''
      else clean_text raw None)"
  by (simp add: clean_text_def Let_def py_slice_to_def split: option.splits)

lemma normalise_tidy_id:
  assumes "tidy s"
  shows "py_strip (re_sub_runs py_isspace (re_sub_runs is_crlftab s)) = s"
proof -
  from assms have sp: "spaced s" by (simp add: tidy_def)
  then have "re_sub_runs is_crlftab s = s"
    by (intro re_sub_runs_none ballI) (rule spaced_no_crlftab)
  moreover from sp have "re_sub_runs py_isspace s = s" by (rule re_sub_runs_spaced)
  moreover from assms have "py_strip s = s"
    unfolding py_strip_def by (intro strip_with_id) (simp add: tidy_def)
  ultimately show ?thesis by simp
qed

lemma clean_text_tidy_id:
  assumes "tidy s" and "m = 0 \<or> int (length s) \<le> m"
  shows "clean_text (Some s) (Some m) = s"
  using assms normalise_tidy_id [OF assms(1)]
  by (auto simp: clean_text_def Let_def)

lemma spaced_dots: "spaced ''...''"
  by (simp add: py_isspace_def)

lemma tidy_truncated:
  assumes "tidy u" and "k < length u"
  shows "tidy (take k u @ ''...'')"
proof -
  from assms have "spaced (take k u)" by (simp add: tidy_def spaced_take)
  then have sp: "spaced (take k u @ ''...'')"
    by (rule spaced_append) (simp_all add: py_isspace_def)
  have l: "\<not> py_isspace (last (take k u @ ''...''))" by (simp add: py_isspace_def)
  have h: "\<not> py_isspace (hd (take k u @ ''...''))"
  proof (cases k)
    case 0
    then show ?thesis by (simp add: py_isspace_def)
  next
    case (Suc j)
    with assms obtain c cs where u: "u = c # cs" by (cases u) auto
    with assms have "\<not> py_isspace c" by (simp add: tidy_def)
    with u Suc show ?thesis by simp
  qed
  from sp h l show ?thesis by (simp add: tidy_def)
qed

lemma clean_text_Some_tidy:
  assumes "3 \<le> m"
  shows "tidy (clean_text raw (Some m)) \<and> int (length (clean_text raw (Some m))) \<le> m"
proof (cases "m < int (length (clean_text raw None))")
  case True
  with assms have k: "nat (m - 3) < length (clean_text raw None)" by linarith
  from True assms have "clean_text raw (Some m) = take (nat (m - 3)) (clean_text raw None) @ ''...''"
    by (simp add: clean_text_trunc)
  moreover have "tidy (take (nat (m - 3)) (clean_text raw None) @ ''...'')"
    using clean_text_None_tidy k by (rule tidy_truncated)
  moreover have "int (length (take (nat (m - 3)) (clean_text raw None) @ ''...'')) = m"
    using k assms by simp
  ultimately show ?thesis by simp
next
  case False
  with assms have "clean_text raw (Some m) = clean_text raw None"
    by (simp add: clean_text_trunc)
  with False show ?thesis by (simp add: clean_text_None_tidy)
qed

text \<open>
  Claim C9. For every input (a string or \<open>None\<close>) and every maximum length that the
  pipeline configures (100, 200 or 1000), the result of the text cleaner is at most
  that long; when the cleaned text is longer than the maximum, the result is its first
  \<open>max_length - 3\<close> characters followed by the three-character marker, exactly
  \<open>max_length\<close> characters in all; and cleaning the result again with the same maximum
  returns it unchanged.
\<close>

theorem clean_text_bounded_idempotent:
  assumes "m \<in> {100, 200, 1000}"
  shows "int (length (clean_text raw (Some m))) \<le> m
       \<and> (m < int (length (clean_text raw None)) \<longrightarrow>
            clean_text raw (Some m) = take (nat (m - 3)) (clean_text raw None) @ ''...''
          \<and> int (length (clean_text raw (Some m))) = m)
       \<and> clean_text (Some (clean_text raw (Some m))) (Some m) = clean_text raw (Some m)"
proof -
  from assms have m: "3 \<le> m" by auto
  note t = clean_text_Some_tidy [OF m, of raw]
  have "clean_text (Some (clean_text raw (Some m))) (Some m) = clean_text raw (Some m)"
    using t by (intro clean_text_tidy_id) simp_all
  moreover have "m < int (length (clean_text raw None)) \<longrightarrow>
            clean_text raw (Some m) = take (nat (m - 3)) (clean_text raw None) @ ''...''
          \<and> int (length (clean_text raw (Some m))) = m"
    using m by (auto simp: clean_text_trunc)
  ultimately show ?thesis using t by blast
qed

theorem clean_text_bounded_idempotent_witness:
  "(100::int) \<in> {100, 200, 1000}
   \<and> clean_text (Some (CHR 0x09 # ''Cosy  loft '')) (Some 100) = ''Cosy loft''
   \<and> clean_text (Some ''Cosy loft'') (Some 100) = ''Cosy loft''"
  using clean_text_bounded_idempotent [of 100 "Some (CHR 0x09 # ''Cosy  loft '')"]
  by (simp add: clean_text_def py_strip_def strip_with_def py_isspace_def is_crlftab_def)

subsection \<open>The amenity counter\<close>

lemma py_split_ne: "py_split sep s \<noteq> []"
  by (induction s) (simp_all split: list.splits)

lemma length_py_split: "length (py_split sep s) = Suc (count_list s sep)"
proof (induction s)
  case Nil
  show ?case by simp
next
  case (Cons c cs)
  obtain w ws where "py_split sep cs = w # ws"
    using py_split_ne [of sep cs] by (cases "py_split sep cs") simp_all
  with Cons show ?case by simp
qed

text \<open>
  Claim C2, as the code has it. The counter removes every leading and trailing brace
  character, splits the remainder on commas and returns the number of items, the empty
  ones included: one more than the number of commas. An input that is absent, empty or
  made of braces only gives 0.
\<close>

theorem clean_amenities_counts_all_items:
  "clean_amenities a =
     (case a of
        None \<Rightarrow> 0
      | Some s \<Rightarrow>
          (let cleaned = py_strip_chars ''{}'' s
           in if cleaned = [] then 0 else 1 + int (count_list cleaned CHR '','')))"
  by (simp add: clean_amenities_def py_strip_chars_def Let_def length_py_split
           split: option.splits)

text \<open>
  Claim C2 as stated fails: on \<open>{TV,,Wifi}\<close> the code returns 3, the empty item
  counted, where the specification's count of non-empty items is 2.
\<close>

theorem clean_amenities_counts_empty_items:
  "clean_amenities (Some ''{TV,,Wifi}'') = 3
   \<and> amenity_count_spec ''{TV,,Wifi}'' = 2
   \<and> clean_amenities (Some ''{TV,,Wifi}'') \<noteq> amenity_count_spec ''{TV,,Wifi}''"
  by (simp add: clean_amenities_def py_strip_chars_def strip_with_def
        amenity_count_spec_def strip_brace_pair_def py_strip_def py_isspace_def)

section \<open>Properties of the sorting and numbering stage\<close>

lemma map_result_Inr:
  "map_result f xs = Inr ys \<Longrightarrow>
   ys = map (\<lambda>x. case f x of Inr k \<Rightarrow> k | Inl e \<Rightarrow> d) xs \<and> (\<forall>x \<in> set xs. \<exists>k. f x = Inr k)"
  by (induction xs arbitrary: ys) (auto split: sum.splits)

lemma map_result_total:
  "\<forall>x \<in> set xs. \<exists>k. f x = Inr k \<Longrightarrow> \<exists>ys. map_result f xs = Inr ys"
  by (induction xs) (auto split: sum.splits)

lemma insort_key_zip:
  "map snd (insort_key fst (g x, x) (zip (map g xs) xs)) = insort_key g x (map snd (zip (map g xs) xs))"
  by (induction xs) auto

lemma insort_key_pairs:
  "\<forall>p \<in> set ps. fst p = g (snd p) \<Longrightarrow>
   map snd (insort_key fst (g x, x) ps) = insort_key g x (map snd ps)"
  by (induction ps) auto

lemma sort_key_pairs:
  "\<forall>p \<in> set ps. fst p = g (snd p) \<Longrightarrow> map snd (sort_key fst ps) = sort_key g (map snd ps)"
proof (induction ps)
  case Nil
  then show ?case by simp
next
  case (Cons p ps)
  then have ih: "map snd (sort_key fst ps) = sort_key g (map snd ps)" by simp
  from Cons.prems have inv: "\<forall>p \<in> set (sort_key fst ps). fst p = g (snd p)" by simp
  from Cons.prems have p: "p = (g (snd p), snd p)" by (cases p) simp
  have "map snd (insort_key fst (g (snd p), snd p) (sort_key fst ps))
          = insort_key g (snd p) (map snd (sort_key fst ps))"
    using inv by (rule insort_key_pairs)
  with p have "map snd (insort_key fst p (sort_key fst ps))
          = insort_key g (snd p) (map snd (sort_key fst ps))" by simp
  with ih show ?case by simp
qed

lemma sort_key_zip:
  "map snd (sort_key fst (zip (map g xs) xs)) = sort_key g xs"
proof -
  have "\<forall>p \<in> set (zip (map g xs) xs). fst p = g (snd p)"
    by (auto simp: set_zip)
  then have "map snd (sort_key fst (zip (map g xs) xs)) = sort_key g (map snd (zip (map g xs) xs))"
    by (rule sort_key_pairs)
  moreover have "map snd (zip (map g xs) xs) = xs" by (rule map_snd_zip) simp
  ultimately show ?thesis by (simp only:)
qed

lemma py_sort_Inr:
  assumes "py_sort f xs = Inr ys"
  shows "ys = sort_key (\<lambda>x. case f x of Inr k \<Rightarrow> k | Inl e \<Rightarrow> 0) xs"
    and "\<forall>x \<in> set xs. \<exists>k. f x = Inr k"
proof -
  from assms obtain ks where ks: "map_result f xs = Inr ks"
    and ys: "ys = map snd (sort_key fst (zip ks xs))"
    by (auto simp: py_sort_def split: sum.splits)
  from map_result_Inr [OF ks, of 0]
  have k: "ks = map (\<lambda>x. case f x of Inr k \<Rightarrow> k | Inl e \<Rightarrow> 0) xs"
    and t: "\<forall>x \<in> set xs. \<exists>k. f x = Inr k" by simp_all
  from ys k show "ys = sort_key (\<lambda>x. case f x of Inr k \<Rightarrow> k | Inl e \<Rightarrow> 0) xs"
    by (simp add: sort_key_zip)
  from t show "\<forall>x \<in> set xs. \<exists>k. f x = Inr k" .
qed

lemma length_assign_sequential_id [simp]:
  "length (assign_sequential_id i rows) = length rows"
  by (induction rows arbitrary: i) auto

lemma nth_assign_sequential_id:
  "k < length rows \<Longrightarrow>
   assign_sequential_id i rows ! k = AList.update ''sequential_id'' (VInt (int k + i)) (rows ! k)"
proof (induction rows arbitrary: i k)
  case Nil
  then show ?case by simp
next
  case (Cons r rows)
  show ?case
  proof (cases k)
    case 0
    then show ?thesis by simp
  next
    case (Suc j)
    with Cons.prems have "j < length rows" by simp
    from Cons.IH [OF this, of "i + 1"] Suc show ?thesis by (simp add: algebra_simps)
  qed
qed

lemma assign_sequential_id_map:
  "map (AList.delete ''sequential_id'') (assign_sequential_id i rows)
     = map (AList.delete ''sequential_id'') rows"
  by (induction rows arbitrary: i) (auto simp: delete_update_same)

lemma id_sort_key_update [simp]:
  "id_sort_key (AList.update ''sequential_id'' v r) = id_sort_key r"
  by (simp add: id_sort_key_def update_conv')

lemma code_key_update [simp]: "code_key (AList.update ''sequential_id'' v r) = code_key r"
  by (simp add: code_key_def)

lemma code_key_assign: "map code_key (assign_sequential_id i rows) = map code_key rows"
  by (induction rows arbitrary: i) auto

lemma id_sort_key_assign:
  "r \<in> set (assign_sequential_id i rows) \<Longrightarrow> \<exists>r' \<in> set rows. id_sort_key r = id_sort_key r'"
  by (induction rows arbitrary: i) auto

lemma stage_Inr:
  assumes "sequential_id_stage rows = Inr out"
  shows "out = assign_sequential_id 1 (sort_key code_key rows)"
    and "\<forall>r \<in> set rows. id_sort_key r = Inr (code_key r)"
proof -
  from assms obtain s where s: "py_sort id_sort_key rows = Inr s"
    and out: "out = assign_sequential_id 1 s"
    by (auto simp: sequential_id_stage_def split: sum.splits)
  have "(\<lambda>x. case id_sort_key x of Inr k \<Rightarrow> k | Inl e \<Rightarrow> 0) = code_key"
    by (rule ext) (simp add: code_key_def)
  with py_sort_Inr(1) [OF s] out show "out = assign_sequential_id 1 (sort_key code_key rows)"
    by simp
  from py_sort_Inr(2) [OF s] show "\<forall>r \<in> set rows. id_sort_key r = Inr (code_key r)"
    by (auto simp: code_key_def)
qed

lemma is_decimal_not_special:
  "is_decimal c \<Longrightarrow> \<not> num_isspace c \<and> c \<noteq> CHR ''_'' \<and> c \<noteq> CHR ''-'' \<and> c \<noteq> CHR ''+''"
  by (auto simp: is_decimal_def num_isspace_def Let_def)

lemma underscores_ok_none: "\<forall>c \<in> set s. c \<noteq> CHR ''_'' \<Longrightarrow> underscores_ok prev s"
  by (induction s arbitrary: prev) auto

lemma py_int_decimal:
  assumes "s \<noteq> []" and "list_all is_decimal s" and "length s \<le> int_max_str_digits"
  shows "py_int s = Inr (dec_val s)"
proof -
  from assms(2) have d: "\<And>c. c \<in> set s \<Longrightarrow> is_decimal c" by (simp add: list_all_iff)
  from assms(1) have "is_decimal (hd s)" "is_decimal (last s)" by (simp_all add: d)
  then have h: "\<not> num_isspace (hd s)" "\<not> num_isspace (last s)"
    "hd s \<noteq> CHR ''-''" "hd s \<noteq> CHR ''+''"
    using is_decimal_not_special by blast+
  then have 1: "strip_with num_isspace s = s" by (intro strip_with_id) simp
  have nu: "\<forall>c \<in> set s. c \<noteq> CHR ''_''"
    using d is_decimal_not_special by blast
  then have "filter (\<lambda>c. c \<noteq> CHR ''_'') s = s" by (simp only: filter_id_conv)
  with nu have 2: "drop_underscores s = Some s"
    by (simp only: drop_underscores_def underscores_ok_none if_True)
  from h assms(1) have 3: "split_sign s = (False, s)"
    by (cases s) (simp_all add: split_sign_def)
  have "py_int s = (if s \<noteq> [] \<and> list_all is_decimal s \<and> length s \<le> int_max_str_digits
                    then Inr (dec_val s) else Inl ValueError)"
    by (simp add: py_int_def 1 2 3)
  with assms show ?thesis by (simp only: simp_thms if_True)
qed

lemma id_sort_key_plain: "plain_id r \<Longrightarrow> \<exists>k. id_sort_key r = Inr k"
  by (auto simp: plain_id_def id_sort_key_def py_int_decimal py_isdigit_def
           split: option.splits pyval.splits)

lemma stage_total:
  assumes "list_all plain_id rows"
  shows "\<exists>out. sequential_id_stage rows = Inr out"
proof -
  from assms have "\<forall>r \<in> set rows. \<exists>k. id_sort_key r = Inr k"
    by (auto simp: list_all_iff dest: id_sort_key_plain)
  then obtain ks where "map_result id_sort_key rows = Inr ks"
    using map_result_total by blast
  then show ?thesis by (simp add: sequential_id_stage_def py_sort_def)
qed

lemma stage_length:
  assumes "sequential_id_stage rows = Inr out"
  shows "length out = length rows"
  by (simp add: stage_Inr(1) [OF assms])

lemma stage_mset:
  assumes "sequential_id_stage rows = Inr out"
  shows "mset (map (AList.delete ''sequential_id'') out)
           = mset (map (AList.delete ''sequential_id'') rows)"
proof -
  have "map (AList.delete ''sequential_id'') out
          = map (AList.delete ''sequential_id'') (sort_key code_key rows)"
    by (simp only: stage_Inr(1) [OF assms] assign_sequential_id_map)
  then show ?thesis by simp
qed

lemma stage_keys:
  assumes "sequential_id_stage rows = Inr out" and "r \<in> set out"
  shows "id_sort_key r = Inr (code_key r)"
proof -
  note o = stage_Inr(1) [OF assms(1)]
  have "r \<in> set (assign_sequential_id 1 (sort_key code_key rows))"
    using assms(2) by (simp only: o)
  then obtain r' where r': "r' \<in> set (sort_key code_key rows)"
    and e: "id_sort_key r = id_sort_key r'"
    by (rule id_sort_key_assign [THEN bexE])
  from r' have "r' \<in> set rows" by simp
  with stage_Inr(2) [OF assms(1)] have k: "id_sort_key r' = Inr (code_key r')" by (rule bspec)
  from e have "code_key r = code_key r'" by (simp only: code_key_def)
  with e k show ?thesis by (simp only:)
qed

lemma stage_sorted:
  assumes "sequential_id_stage rows = Inr out"
  shows "sorted (map code_key out)"
  by (simp only: stage_Inr(1) [OF assms] code_key_assign sorted_sort_key)

lemma stage_numbered:
  assumes "sequential_id_stage rows = Inr out" and "k < length out"
  shows "map_of (out ! k) ''sequential_id'' = Some (VInt (int k + 1))"
proof -
  note o = stage_Inr(1) [OF assms(1)]
  from assms(2) have k: "k < length (sort_key code_key rows)"
    by (simp add: o)
  then have "assign_sequential_id 1 (sort_key code_key rows) ! k
      = AList.update ''sequential_id'' (VInt (int k + 1)) (sort_key code_key rows ! k)"
    by (rule nth_assign_sequential_id)
  then have "out ! k = AList.update ''sequential_id'' (VInt (int k + 1)) (sort_key code_key rows ! k)"
    by (simp only: o)
  then show ?thesis by (simp add: update_conv')
qed

text \<open>What holds of the result whenever the stage returns one, in terms of the key the code computes.\<close>

lemma stage_result_sorted_numbered:
  "(list_all plain_id rows \<longrightarrow> (\<exists>out. sequential_id_stage rows = Inr out))
   \<and> (\<forall>out. sequential_id_stage rows = Inr out \<longrightarrow>
         length out = length rows
       \<and> mset (map (AList.delete ''sequential_id'') out)
           = mset (map (AList.delete ''sequential_id'') rows)
       \<and> (\<forall>r \<in> set out. id_sort_key r = Inr (code_key r))
       \<and> sorted (map code_key out)
       \<and> (\<forall>k < length out. map_of (out ! k) ''sequential_id'' = Some (VInt (int k + 1))))"
  using stage_total stage_length stage_mset stage_keys stage_sorted stage_numbered
  by blast

lemma length_filter_disjoint:
  "\<forall>x. \<not> (P x \<and> Q x) \<Longrightarrow> length (filter P xs) + length (filter Q xs) \<le> length xs"
  by (induction xs) auto

lemma sorted_partition:
  "sorted (map f xs) \<Longrightarrow>
   xs = filter (\<lambda>x. f x < v) xs @ filter (\<lambda>x. f x = v) xs @ filter (\<lambda>x. v < f x) xs"
  for f :: "'a \<Rightarrow> int"
proof (induction xs)
  case Nil
  then show ?case by simp
next
  case (Cons x xs)
  then have ih: "xs = filter (\<lambda>x. f x < v) xs @ filter (\<lambda>x. f x = v) xs @ filter (\<lambda>x. v < f x) xs"
    and le: "\<forall>y \<in> set xs. f x \<le> f y" by simp_all
  consider "f x < v" | "f x = v" | "v < f x" by linarith
  then show ?case
  proof cases
    case 1
    with ih show ?thesis by simp
  next
    case 2
    with le have "filter (\<lambda>x. f x < v) xs = []" by (auto simp: filter_empty_conv)
    with 2 ih show ?thesis by simp
  next
    case 3
    with le have "filter (\<lambda>x. f x < v) xs = []" "filter (\<lambda>x. f x = v) xs = []"
      by (auto simp: filter_empty_conv)
    with 3 ih show ?thesis by simp
  qed
qed

lemma sort_key_block:
  fixes f :: "'a \<Rightarrow> int"
  assumes "j < length (filter (\<lambda>x. f x = v) xs)"
  shows "sort_key f xs ! (length (filter (\<lambda>x. f x < v) xs) + j) = filter (\<lambda>x. f x = v) xs ! j"
proof -
  let ?S = "sort_key f xs"
  have "sorted (map f ?S)" by (rule sorted_sort_key)
  then have p: "?S = filter (\<lambda>x. f x < v) ?S @ filter (\<lambda>x. f x = v) ?S @ filter (\<lambda>x. v < f x) ?S"
    by (rule sorted_partition)
  have eq: "filter (\<lambda>x. f x = v) ?S = filter (\<lambda>x. f x = v) xs" by (rule sort_key_stable)
  have "filter (\<lambda>x. f x < v) ?S = sort_key f (filter (\<lambda>x. f x < v) xs)" by (rule filter_sort)
  then have len: "length (filter (\<lambda>x. f x < v) ?S) = length (filter (\<lambda>x. f x < v) xs)" by simp
  have "?S ! (length (filter (\<lambda>x. f x < v) xs) + j)
        = (filter (\<lambda>x. f x < v) ?S @ filter (\<lambda>x. f x = v) ?S @ filter (\<lambda>x. v < f x) ?S)
            ! (length (filter (\<lambda>x. f x < v) ?S) + j)"
    using p len by simp
  also have "\<dots> = (filter (\<lambda>x. f x = v) ?S @ filter (\<lambda>x. v < f x) ?S) ! j"
    by (simp only: nth_append_length_plus)
  also have "\<dots> = filter (\<lambda>x. f x = v) xs ! j"
    using assms by (simp add: eq nth_append)
  finally show ?thesis .
qed

text \<open>Stability, whenever the stage returns a result.\<close>

lemma stage_result_stable:
  assumes "sequential_id_stage rows = Inr out"
    and "j < length (filter (\<lambda>r. code_key r = v) rows)"
  shows "out ! (length (filter (\<lambda>r. code_key r < v) rows) + j)
         = AList.update ''sequential_id''
             (VInt (int (length (filter (\<lambda>r. code_key r < v) rows)) + int j + 1))
             (filter (\<lambda>r. code_key r = v) rows ! j)"
proof -
  let ?n = "length (filter (\<lambda>r. code_key r < v) rows)"
  have "length (filter (\<lambda>r. code_key r < v) rows) + length (filter (\<lambda>r. code_key r = v) rows)
          \<le> length rows"
    by (rule length_filter_disjoint) simp
  with assms(2) have k: "?n + j < length (sort_key code_key rows)" by simp
  from stage_Inr(1) [OF assms(1)]
  have "out ! (?n + j)
        = AList.update ''sequential_id'' (VInt (int (?n + j) + 1)) (sort_key code_key rows ! (?n + j))"
    using k by (simp only: nth_assign_sequential_id)
  with sort_key_block [OF assms(2)] show ?thesis by simp
qed

subsection \<open>The stage on ids that int can read\<close>

text \<open>
  On a collection whose ids are strings that \<open>int\<close> reads whenever \<open>isdigit\<close> accepts
  them, the key of the code is the numeric value of the id as the specification has it
  (0 for an id that is not all digits), the stage returns, its result is ordered by that
  value and numbered from 1, and records with the same value keep their order.
\<close>

lemma decimal_isdigit: "s \<noteq> [] \<Longrightarrow> list_all is_decimal s \<Longrightarrow> py_isdigit s"
  by (simp add: py_isdigit_def list_all_iff)

lemma id_sort_key_not_digits:
  "map_of r ''id'' = Some (VStr s) \<Longrightarrow> \<not> py_isdigit s \<Longrightarrow> id_sort_key r = Inr 0"
  by (simp add: id_sort_key_def)

lemma id_sort_key_plain_value:
  assumes "plain_id r"
  shows "id_sort_key r = Inr (id_value r)"
proof -
  from assms obtain s where s: "map_of r ''id'' = Some (VStr s)"
    and p: "\<not> py_isdigit s \<or> (list_all is_decimal s \<and> length s \<le> int_max_str_digits)"
    by (auto simp: plain_id_def split: option.splits pyval.splits)
  show ?thesis
  proof (cases "py_isdigit s")
    case False
    then have "\<not> (s \<noteq> [] \<and> list_all is_decimal s)" using decimal_isdigit by blast
    then have "numeric_id s = 0" unfolding numeric_id_def by (rule if_not_P)
    with s False show ?thesis by (simp add: id_sort_key_def id_value_def)
  next
    case True
    with p have d: "list_all is_decimal s" and l: "length s \<le> int_max_str_digits" by simp_all
    from True have n: "s \<noteq> []" by (simp add: py_isdigit_def)
    from n d l have "py_int s = Inr (dec_val s)" by (rule py_int_decimal)
    moreover from n d have "numeric_id s = dec_val s" by (simp add: numeric_id_def)
    ultimately show ?thesis using s True by (simp add: id_sort_key_def id_value_def)
  qed
qed

lemma code_key_plain: "plain_id r \<Longrightarrow> code_key r = id_value r"
  by (simp add: code_key_def id_sort_key_plain_value)

lemma id_value_update [simp]: "id_value (AList.update ''sequential_id'' v r) = id_value r"
  by (simp add: id_value_def update_conv')

lemma id_value_assign: "map id_value (assign_sequential_id i rows) = map id_value rows"
  by (induction rows arbitrary: i) auto

lemma sequential_id_stage_on_plain_ids:
  assumes "list_all plain_id rows"
  shows "\<exists>out. sequential_id_stage rows = Inr out
           \<and> length out = length rows
           \<and> mset (map (AList.delete ''sequential_id'') out)
               = mset (map (AList.delete ''sequential_id'') rows)
           \<and> sorted (map id_value out)
           \<and> (\<forall>k < length out. map_of (out ! k) ''sequential_id'' = Some (VInt (int k + 1)))"
proof -
  from assms obtain out where out: "sequential_id_stage rows = Inr out"
    using stage_total by blast
  from assms have eq: "\<And>r. r \<in> set rows \<Longrightarrow> code_key r = id_value r"
    by (simp add: list_all_iff code_key_plain)
  have "map id_value out = map id_value (sort_key code_key rows)"
    by (simp only: stage_Inr(1) [OF out] id_value_assign)
  also have "\<dots> = map code_key (sort_key code_key rows)"
    by (rule map_cong) (simp_all add: eq)
  finally have "sorted (map id_value out)" by (simp only: sorted_sort_key)
  with out stage_length [OF out] stage_mset [OF out] stage_numbered [OF out]
  show ?thesis by blast
qed

lemma sequential_id_stage_stable_on_plain_ids:
  assumes "list_all plain_id rows"
    and "j < length (filter (\<lambda>r. id_value r = v) rows)"
  shows "\<exists>out. sequential_id_stage rows = Inr out
           \<and> out ! (length (filter (\<lambda>r. id_value r < v) rows) + j)
               = AList.update ''sequential_id''
                   (VInt (int (length (filter (\<lambda>r. id_value r < v) rows)) + int j + 1))
                   (filter (\<lambda>r. id_value r = v) rows ! j)"
proof -
  from assms(1) obtain out where out: "sequential_id_stage rows = Inr out"
    using stage_total by blast
  from assms(1) have eq: "\<And>r. r \<in> set rows \<Longrightarrow> code_key r = id_value r"
    by (simp add: list_all_iff code_key_plain)
  have f1: "filter (\<lambda>r. code_key r = v) rows = filter (\<lambda>r. id_value r = v) rows"
    by (rule filter_cong) (simp_all add: eq)
  have f2: "filter (\<lambda>r. code_key r < v) rows = filter (\<lambda>r. id_value r < v) rows"
    by (rule filter_cong) (simp_all add: eq)
  from assms(2) have "j < length (filter (\<lambda>r. code_key r = v) rows)" by (simp only: f1)
  from stage_result_stable [OF out this] have
    "out ! (length (filter (\<lambda>r. id_value r < v) rows) + j)
               = AList.update ''sequential_id''
                   (VInt (int (length (filter (\<lambda>r. id_value r < v) rows)) + int j + 1))
                   (filter (\<lambda>r. id_value r = v) rows ! j)"
    by (simp only: f1 f2)
  with out show ?thesis by blast
qed

section \<open>Properties of the pipeline\<close>

subsection \<open>Evaluating the model\<close>

lemma floor_rat_numeral: "\<lfloor>numeral a / numeral b :: rat\<rfloor> = numeral a div numeral b"
  using floor_divide_of_int_eq [of "numeral a" "numeral b", where ?'a = rat] by simp

lemmas float_eval =
  rnd64_def ilog2_def log2_ge1.simps log2_lt1.simps pow2_def round_half_even_def
  py_float_def parse_decimal_def parse_exponent_def split_sign_def drop_underscores_def
  strip_with_def num_isspace_def is_decimal_def dec_val_def ascii_lower_char_def
  py_round2_def py_int_of_float_def py_float_of_int_def py_truediv_def floor_rat_numeral Let_def

lemmas field_eval =
  clean_price_def clean_float_def clean_int_def clean_percentage_def py_str_def
  convert_boolean_def py_lower_def clean_date_def simplify_room_type_def
  categorize_price_def categorize_reviews_def categorize_host_def categorize_availability_def
  clean_text_def clean_amenities_def py_strip_def py_strip_chars_def py_isspace_def
  is_crlftab_def py_slice_to_def

lemma clean_float_0: "clean_float (Some ''0'') = Fin 0"
  by (simp add: field_eval float_eval)

lemma clean_int_0: "clean_int (Some ''0'') = 0"
  by (simp add: field_eval float_eval)

lemma clean_int_1: "clean_int (Some ''1'') = 1"
  by (simp add: field_eval float_eval)

lemma clean_int_365: "clean_int (Some ''365'') = 365"
  by (simp add: field_eval float_eval)

lemma clean_price_0: "clean_price (Some ''0'') = Fin 0"
  by (simp add: field_eval float_eval)

lemma clean_percentage_empty: "clean_percentage (Some []) = Fin 0"
  by (simp add: field_eval float_eval)

lemma convert_boolean_f: "convert_boolean (Some ''f'') = 0"
  by (simp add: field_eval)

lemma convert_boolean_t: "convert_boolean (Some ''t'') = 1"
  by (simp add: field_eval)

lemma clean_amenities_braces: "clean_amenities (Some ''{}'') = 0"
  by (simp add: field_eval strip_with_def)

lemma simplify_room_type_empty: "simplify_room_type (Some []) = ''Other''"
  by (simp add: field_eval)

lemma clean_text_empty: "clean_text (Some []) m = []"
  by (simp add: clean_text_def)

lemma clean_date_empty: "clean_date (Some []) = []"
  by (simp add: clean_date_def)

lemmas row_eval =
  process_row_def is_blank_row_def strip_method_def row_get_def cleaned_record_def
  record_fields_def stripped_def plain_def Let_def
  clean_float_0 clean_int_0 clean_int_1 clean_int_365 clean_price_0 clean_percentage_empty
  convert_boolean_f convert_boolean_t clean_amenities_braces simplify_room_type_empty
  clean_text_empty clean_date_empty
  categorize_price_def categorize_reviews_def categorize_host_def categorize_availability_def
  py_strip_def strip_with_def py_isspace_def

lemmas key_eval =
  id_sort_key_def py_isdigit_def py_int_def drop_underscores_def split_sign_def
  strip_with_def num_isspace_def is_decimal_def dec_val_def int_max_str_digits_def

lemma clean_price_50: "clean_price (Some ''50'') = Fin 50"
  by (simp add: field_eval float_eval)

lemma price_per_guest_50: "price_per_guest (Fin 50) 1 = Inr (VFloat (Fin 50))"
  by (simp add: price_per_guest_def float_eval)

subsection \<open>The loop and its counters\<close>

lemma transform_rows_acc:
  "transform_rows rows cleaned errs =
     (cleaned @ map accepted_record (filter is_accepted rows),
      errs + int (length (filter is_errored rows)))"
proof (induction rows arbitrary: cleaned errs)
  case Nil
  show ?case by simp
next
  case (Cons row rows)
  show ?case
    by (cases "process_row row")
       (simp_all add: Cons.IH is_accepted_def is_errored_def accepted_record_def)
qed


lemma run_transform_eq:
  "run_transform rows =
     \<lparr>cleaned_rows = map accepted_record (filter is_accepted rows),
      raw_count = int (length rows),
      clean_count = int (length (filter is_accepted rows)),
      removed_count = int (length rows) - int (length (filter is_accepted rows)),
      error_count = int (length (filter is_errored rows))\<rparr>"
  by (simp add: run_transform_def transform_rows_acc)


lemma build_dict_entry:
  "build_dict es = Inr d \<Longrightarrow> map_of es k = Some v \<Longrightarrow> \<exists>x. v = Inr x \<and> map_of d k = Some x"
proof (induction es arbitrary: d)
  case Nil
  then show ?case by simp
next
  case (Cons e es)
  obtain k' w where e: "e = (k', w)" by (cases e)
  with Cons.prems(1) obtain x d' where w: "w = Inr x" and d': "build_dict es = Inr d'"
    and d: "d = (k', x) # d'"
    by (auto split: sum.splits)
  show ?case
  proof (cases "k = k'")
    case True
    with Cons.prems(2) e w d show ?thesis by simp
  next
    case False
    with Cons.prems(2) e have "map_of es k = Some v" by simp
    from Cons.IH [OF d' this] False d show ?thesis by simp
  qed
qed


subsection \<open>The sorting stage on ids that isdigit accepts and int rejects\<close>

lemma superscript_row_accepted:
  "is_accepted superscript_row
   \<and> map_of (accepted_record superscript_row) ''id'' = Some (VStr [CHR 0xB2])"
  by (simp add: superscript_row_def accepted_record_def is_accepted_def row_eval
        clean_price_50 price_per_guest_50)

text \<open>
  Claim C6 fails on the code. A row whose id is the superscript two and whose price is 50 is
  accepted; \<open>isdigit\<close> accepts that id and \<open>int\<close> rejects it, so the key function raises
  \<open>ValueError\<close> in the sort: the collection is neither ordered nor numbered.
\<close>

theorem sequential_id_stage_raises_on_superscript_id:
  "is_accepted superscript_row
   \<and> cleaned_rows (run_transform [superscript_row]) = [accepted_record superscript_row]
   \<and> sequential_id_stage (cleaned_rows (run_transform [superscript_row])) = Inl ValueError"
proof -
  note a = superscript_row_accepted
  then have c: "cleaned_rows (run_transform [superscript_row]) = [accepted_record superscript_row]"
    by (simp add: run_transform_eq)
  have "id_sort_key (accepted_record superscript_row) = Inl ValueError"
    using a by (simp add: key_eval)
  then have "sequential_id_stage [accepted_record superscript_row] = Inl ValueError"
    by (simp add: sequential_id_stage_def py_sort_def)
  with a c show ?thesis by simp
qed


lemma row_a_accepted:
  "is_accepted [(''id'', Some ''a''), (''price'', Some ''50'')]
   \<and> map_of (accepted_record [(''id'', Some ''a''), (''price'', Some ''50'')]) ''id''
       = Some (VStr ''a'')"
  by (simp add: accepted_record_def is_accepted_def row_eval clean_price_50 price_per_guest_50)

lemma row_b_accepted:
  "is_accepted [(''id'', Some ''b''), (''price'', Some ''50'')]
   \<and> map_of (accepted_record [(''id'', Some ''b''), (''price'', Some ''50'')]) ''id''
       = Some (VStr ''b'')"
  by (simp add: accepted_record_def is_accepted_def row_eval clean_price_50 price_per_guest_50)

text \<open>
  Claim C10 fails on the code for the same reason. Of the three accepted rows with the ids
  \<open>a\<close>, \<open>b\<close> and superscript two, the first two have key 0 and should keep their order
  and receive consecutive numbers; the stage raises \<open>ValueError\<close> and numbers nothing.
\<close>

theorem sequential_id_stage_numbers_nothing_on_superscript_id:
  "list_all is_accepted plain_rows_then_superscript
   \<and> length (cleaned_rows (run_transform plain_rows_then_superscript)) = 3
   \<and> sequential_id_stage (cleaned_rows (run_transform plain_rows_then_superscript))
       = Inl ValueError"
proof -
  note a = row_a_accepted and b = row_b_accepted and c = superscript_row_accepted
  have acc: "list_all is_accepted plain_rows_then_superscript"
    using a b c by (simp add: plain_rows_then_superscript_def)
  then have rows: "cleaned_rows (run_transform plain_rows_then_superscript)
      = [accepted_record [(''id'', Some ''a''), (''price'', Some ''50'')],
         accepted_record [(''id'', Some ''b''), (''price'', Some ''50'')],
         accepted_record superscript_row]"
    using a b c by (simp add: run_transform_eq plain_rows_then_superscript_def)
  have ka: "id_sort_key (accepted_record [(''id'', Some ''a''), (''price'', Some ''50'')]) = Inr 0"
    using a by (simp add: key_eval)
  have kb: "id_sort_key (accepted_record [(''id'', Some ''b''), (''price'', Some ''50'')]) = Inr 0"
    using b by (simp add: key_eval)
  have kc: "id_sort_key (accepted_record superscript_row) = Inl ValueError"
    using c by (simp add: key_eval)
  have "sequential_id_stage (cleaned_rows (run_transform plain_rows_then_superscript))
       = Inl ValueError"
    by (simp add: rows sequential_id_stage_def py_sort_def ka kb kc)
  with acc rows show ?thesis by simp
qed




subsection \<open>The end-to-end example\<close>

lemma clean_int_4: "clean_int (Some ''4'') = 4"
  by (simp add: field_eval float_eval)

lemma clean_int_5: "clean_int (Some ''5'') = 5"
  by (simp add: field_eval float_eval)

lemma clean_price_1200_50: "clean_price (Some ''$1,200.50'') = Fin (2401 / 2)"
  by (simp add: field_eval float_eval)

lemma price_per_guest_1200_50_4:
  "price_per_guest (Fin (2401 / 2)) 4 = Inr (VFloat (Fin (2639883437825065 / 8796093022208)))"
  by (simp add: price_per_guest_def float_eval)

lemma float_300_12: "py_float ''300.12'' = Inr (Fin (2639883437825065 / 8796093022208))"
  by (simp add: float_eval)

lemma float_300_13: "py_float ''300.13'' = Inr (Fin (2639971398755287 / 8796093022208))"
  by (simp add: float_eval)

lemma float_1200_5: "py_float ''1200.5'' = Inr (Fin (2401 / 2))"
  by (simp add: float_eval)

subsection \<open>Accepted rows and their records\<close>

lemma process_row_Accepted:
  assumes "process_row row = Accepted r"
  shows "\<not> flt_le (clean_price (row_get row ''price'' ''0'')) (Fin 0)"
    and "\<not> flt_lt (Fin 10000) (clean_price (row_get row ''price'' ''0''))"
    and "\<exists>i. strip_method (row_get row ''id'' []) = Inr i \<and> i \<noteq> []"
    and "cleaned_record row (clean_price (row_get row ''price'' ''0'')) = Inr r"
  using assms
  by (auto simp: process_row_def Let_def split: sum.splits if_splits)

lemma accepted_record_eq: "process_row row = Accepted r \<Longrightarrow> accepted_record row = r"
  by (simp add: accepted_record_def)

lemma is_accepted_iff: "is_accepted row \<longleftrightarrow> process_row row = Accepted (accepted_record row)"
  by (cases "process_row row") (simp_all add: is_accepted_def accepted_record_def)

lemma accepted_field:
  assumes "is_accepted row"
    and "map_of (record_fields row (clean_price (row_get row ''price'' ''0''))) k = Some (Inr x)"
  shows "map_of (accepted_record row) k = Some x"
proof -
  from assms(1) have "process_row row = Accepted (accepted_record row)"
    by (simp only: is_accepted_iff)
  then have "build_dict (record_fields row (clean_price (row_get row ''price'' ''0'')))
               = Inr (accepted_record row)"
    using process_row_Accepted(4) by (simp only: cleaned_record_def)
  from build_dict_entry [OF this assms(2)] show ?thesis by simp
qed

lemma field_id:
  "map_of (record_fields row price) ''id'' = Some (stripped (row_get row ''id'' []))"
  by (simp add: record_fields_def)

lemma field_price: "map_of (record_fields row price) ''price'' = Some (Inr (VFloat price))"
  by (simp add: record_fields_def)

lemma field_accommodates:
  "map_of (record_fields row price) ''accommodates''
     = Some (Inr (VInt (clean_int (row_get row ''accommodates'' ''0''))))"
  by (simp add: record_fields_def)

lemma field_price_category:
  "map_of (record_fields row price) ''price_category'' = Some (Inr (VStr (categorize_price price)))"
  by (simp add: record_fields_def)

lemma field_is_professional_host:
  "map_of (record_fields row price) ''is_professional_host''
     = Some (Inr (VInt (if 3 < clean_int (row_get row ''host_listings_count'' ''0'') then 1 else 0)))"
  by (simp add: record_fields_def)

lemma field_price_per_guest:
  "map_of (record_fields row price) ''price_per_guest''
     = Some (price_per_guest price (clean_int (row_get row ''accommodates'' ''1'')))"
  by (simp add: record_fields_def)

lemma listing_10_accepted: "is_accepted listing_10"
  by (simp add: listing_10_def is_accepted_def row_eval clean_int_4 clean_int_5
        clean_price_1200_50 price_per_guest_1200_50_4)

lemma listing_10_price: "clean_price (row_get listing_10 ''price'' ''0'') = Fin (2401 / 2)"
  by (simp add: listing_10_def row_get_def clean_price_1200_50)

lemma listing_10_record:
  "map_of (accepted_record listing_10) ''id'' = Some (VStr ''10'')"
  "map_of (accepted_record listing_10) ''price'' = Some (VFloat (Fin (2401 / 2)))"
  "map_of (accepted_record listing_10) ''price_category'' = Some (VStr ''luxury'')"
  "map_of (accepted_record listing_10) ''is_professional_host'' = Some (VInt 1)"
  "map_of (accepted_record listing_10) ''price_per_guest''
       = Some (VFloat (Fin (2639883437825065 / 8796093022208)))"
proof -
  note a = accepted_field [OF listing_10_accepted, unfolded listing_10_price]
  show "map_of (accepted_record listing_10) ''id'' = Some (VStr ''10'')"
    by (rule a) (simp add: field_id listing_10_def row_get_def stripped_def strip_method_def
          py_strip_def strip_with_def py_isspace_def)
  show "map_of (accepted_record listing_10) ''price'' = Some (VFloat (Fin (2401 / 2)))"
    by (rule a) (simp add: field_price)
  show "map_of (accepted_record listing_10) ''price_category'' = Some (VStr ''luxury'')"
    by (rule a) (simp add: field_price_category categorize_price_def)
  show "map_of (accepted_record listing_10) ''is_professional_host'' = Some (VInt 1)"
    by (rule a) (simp add: field_is_professional_host listing_10_def row_get_def clean_int_5)
  show "map_of (accepted_record listing_10) ''price_per_guest''
       = Some (VFloat (Fin (2639883437825065 / 8796093022208)))"
    by (rule a) (simp add: field_price_per_guest listing_10_def row_get_def clean_int_4
          price_per_guest_1200_50_4)
qed

lemma listing_11_skipped: "is_skipped listing_11"
  by (simp add: is_skipped_def listing_11_def row_eval)

lemma listing_blank_id_skipped: "is_skipped listing_blank_id"
  by (simp add: is_skipped_def listing_blank_id_def row_eval)

lemma outcome_exclusive:
  "is_skipped row \<Longrightarrow> \<not> is_accepted row \<and> \<not> is_errored row"
  "is_accepted row \<Longrightarrow> \<not> is_skipped row \<and> \<not> is_errored row"
  by (cases "process_row row"; simp add: is_accepted_def is_skipped_def is_errored_def)+

lemma three_rows_outcomes:
  "map is_accepted three_rows = [True, False, False]"
  "map is_skipped three_rows = [False, True, True]"
  "map is_errored three_rows = [False, False, False]"
  using listing_10_accepted listing_11_skipped listing_blank_id_skipped
  by (simp_all add: three_rows_def outcome_exclusive)

lemma three_rows_cleaned: "cleaned_rows (run_transform three_rows) = [accepted_record listing_10]"
  using three_rows_outcomes(1) by (simp add: run_transform_eq three_rows_def)

text \<open>
  Claim C4, as the code has it. Of the three rows the pipeline accepts exactly the first
  and skips the other two, without an error. The record of the first row has the price
  1200.5, the price category \<open>luxury\<close>, \<open>is_professional_host\<close> 1 and the
  \<open>price_per_guest\<close> 300.12: the quotient 1200.5 / 4 is exactly 300.125, and \<open>round\<close>
  rounds the half to the even digit.
\<close>

theorem three_rows_end_to_end:
  "map is_accepted three_rows = [True, False, False]
   \<and> map is_skipped three_rows = [False, True, True]
   \<and> cleaned_rows (run_transform three_rows) = [accepted_record listing_10]
   \<and> error_count (run_transform three_rows) = 0
   \<and> map_of (accepted_record listing_10) ''id'' = Some (VStr ''10'')
   \<and> py_float ''1200.5'' = Inr (Fin (2401 / 2))
   \<and> map_of (accepted_record listing_10) ''price'' = Some (VFloat (Fin (2401 / 2)))
   \<and> map_of (accepted_record listing_10) ''price_category'' = Some (VStr ''luxury'')
   \<and> map_of (accepted_record listing_10) ''is_professional_host'' = Some (VInt 1)
   \<and> py_float ''300.12'' = Inr (Fin (2639883437825065 / 8796093022208))
   \<and> map_of (accepted_record listing_10) ''price_per_guest''
       = Some (VFloat (Fin (2639883437825065 / 8796093022208)))"
proof -
  have n: "error_count (run_transform three_rows) = 0"
    using three_rows_outcomes(3) by (simp add: run_transform_eq three_rows_def)
  show ?thesis
    by (intro conjI three_rows_outcomes three_rows_cleaned n listing_10_record
          float_1200_5 float_300_12)
qed

text \<open>
  Claim C4 as stated fails: the \<open>price_per_guest\<close> of the accepted record is the float
  300.12, not the float 300.13.
\<close>

theorem three_rows_price_per_guest_is_not_300_13:
  "cleaned_rows (run_transform three_rows) = [accepted_record listing_10]
   \<and> map_of (accepted_record listing_10) ''price_per_guest''
       = Some (VFloat (Fin (2639883437825065 / 8796093022208)))
   \<and> py_float ''300.13'' = Inr (Fin (2639971398755287 / 8796093022208))
   \<and> Fin (2639883437825065 / 8796093022208) \<noteq> Fin (2639971398755287 / 8796093022208)"
proof -
  have d: "Fin (2639883437825065 / 8796093022208) \<noteq> Fin (2639971398755287 / 8796093022208)"
    by simp
  show ?thesis
    by (intro conjI three_rows_cleaned listing_10_record float_300_13 d)
qed

end
